theory Spec2Isabelle
  imports Complex_Main "HOL-Library.Word" "HOL-Library.Sublist"
begin

section \<open>JavaScript values used by the job lifecycle core\<close>

text \<open>
  A JavaScript string is a sequence of 16-bit code units, so \<open>String.fromCharCode\<close> can be
  written without losing the values above 255. String literals of the source are written
  \<open>js ''...''\<close>.
\<close>

type_synonym code_unit = "16 word"
type_synonym jsstring = "code_unit list"

definition js :: "string \<Rightarrow> jsstring" where
  "js s = map of_char s"

text \<open>\<open>String.fromCharCode(n)\<close>: the code unit \<open>n mod 2^16\<close>.\<close>

definition fromCharCode :: "int \<Rightarrow> code_unit" where
  "fromCharCode n = word_of_int n"

text \<open>\<open>Number.prototype.toString()\<close> on an integer: decimal digits, with a sign when negative.\<close>

definition digit :: "nat \<Rightarrow> code_unit" where
  "digit d = of_nat (48 + d)"

function toString_nat :: "nat \<Rightarrow> jsstring" where
  "toString_nat n = (if n < 10 then [digit n] else toString_nat (n div 10) @ [digit (n mod 10)])"
  by pat_completeness auto
termination
  by (relation "measure (\<lambda>n. n)") auto

declare toString_nat.simps [simp del]

definition toString :: "int \<Rightarrow> jsstring" where
  "toString i = (if i < 0 then js ''-'' @ toString_nat (nat (- i)) else toString_nat (nat i))"

text \<open>\<open>s.padStart(n, c)\<close> for a one-character pad string, and \<open>s.slice(-k)\<close>.\<close>

definition padStart :: "nat \<Rightarrow> code_unit \<Rightarrow> jsstring \<Rightarrow> jsstring" where
  "padStart n c s = (if length s \<ge> n then s else replicate (n - length s) c @ s)"

definition slice_last :: "nat \<Rightarrow> jsstring \<Rightarrow> jsstring" where
  "slice_last k s = drop (length s - k) s"

text \<open>\<open>String.prototype.trim\<close>: strips ECMAScript white space and line terminators.\<close>

definition isWhiteSpace :: "code_unit \<Rightarrow> bool" where
  "isWhiteSpace c \<longleftrightarrow>
     c \<in> set [0x0009, 0x000A, 0x000B, 0x000C, 0x000D, 0x0020, 0x00A0, 0x1680,
               0x2000, 0x2001, 0x2002, 0x2003, 0x2004, 0x2005, 0x2006, 0x2007, 0x2008,
               0x2009, 0x200A, 0x2028, 0x2029, 0x202F, 0x205F, 0x3000, 0xFEFF]"

definition trim :: "jsstring \<Rightarrow> jsstring" where
  "trim s = rev (dropWhile isWhiteSpace (rev (dropWhile isWhiteSpace s)))"

text \<open>\<open>Array.prototype.indexOf\<close>: the first index holding the value, or \<open>-1\<close>.\<close>

fun indexOf_from :: "'a list \<Rightarrow> 'a \<Rightarrow> int \<Rightarrow> int" where
  "indexOf_from [] x k = - 1"
| "indexOf_from (y # ys) x k = (if y = x then k else indexOf_from ys x (k + 1))"

definition indexOf :: "'a list \<Rightarrow> 'a \<Rightarrow> int" where
  "indexOf xs x = indexOf_from xs x 0"

text \<open>
  Numbers that carry amounts are JavaScript doubles in the source; the model computes with
  exact rationals. \<open>x.toFixed(2)\<close> picks the integer \<open>n\<close> with \<open>n / 100\<close> closest to \<open>x\<close>,
  the larger one on a tie, after taking the sign off; a \<open>decimal(10, 2)\<close> column value is
  modelled by the rational the decimal string denotes.
\<close>

definition toFixed2 :: "rat \<Rightarrow> rat" where
  "toFixed2 x =
     (if x < 0 then - (of_int \<lfloor>(- x) * 100 + 1 / 2\<rfloor> / 100)
      else of_int \<lfloor>x * 100 + 1 / 2\<rfloor> / 100)"

text \<open>
  The ambient clock and random source, read by \<open>new Date()\<close> and \<open>Math.random()\<close>:
  epoch milliseconds, the local calendar fields, and the random number in \<open>[0, 1)\<close>.
  A date column holds a \<open>YYYY-MM-DD\<close> string; it is modelled by the number of the UTC day
  it names, so that \<open>date.toISOString().split('T')[0]\<close> is \<open>toISODate\<close> and
  \<open>new Date(s).getTime()\<close> is \<open>dateToTime\<close>.
\<close>

record clock =
  getTime :: int
  getFullYear :: int
  getMonth :: int
  getDate :: int
  math_random :: rat

type_synonym isodate = int

definition toISODate :: "int \<Rightarrow> isodate" where
  "toISODate ms = ms div 86400000"

definition dateToTime :: "isodate \<Rightarrow> int" where
  "dateToTime d = d * 86400000"

section \<open>Schema: \<open>src/lib/db/schema.ts\<close>\<close>

record job =
  job_id :: int
  customerId :: int
  estimateNumber :: jsstring
  invoiceNumber :: "jsstring option"
  estimateDate :: isodate
  approvalDate :: "isodate option"
  startDate :: "isodate option"
  completionDate :: "isodate option"
  invoiceDate :: "isodate option"
  paymentDate :: "isodate option"
  status :: jsstring
  totalAmount :: rat
  "notes" :: "jsstring option"
  createdAt :: int
  updatedAt :: int

record lineItem =
  item_id :: int
  jobId :: int
  itemNumber :: int
  action :: jsstring
  amount :: rat
  description :: "jsstring option"

definition JOB_STATUSES :: "jsstring list" where
  "JOB_STATUSES =
     [js ''Estimate Created'', js ''Estimate Sent'', js ''Approved'', js ''In Progress'',
      js ''Completed'', js ''Invoiced'', js ''Paid'']"

text \<open>
  The store: the rows of the two tables in insertion order and the last value of each
  \<open>serial\<close> sequence. Queries by id take the first row (\<open>const [job] = ...\<close>); updates and
  deletes touch every row the \<open>where\<close> clause selects. Store exceptions (lost connection,
  rejected constraint), which the source catches and turns into a generic failure, are not
  part of the model: every store operation here returns.
\<close>

record store =
  jobs :: "job list"
  lineItems :: "lineItem list"
  jobs_id_seq :: int
  lineItems_id_seq :: int

definition select_job_by_id :: "store \<Rightarrow> int \<Rightarrow> job option" where
  "select_job_by_id s i = find (\<lambda>j. job_id j = i) (jobs s)"

definition update_jobs_where_id :: "int \<Rightarrow> (job \<Rightarrow> job) \<Rightarrow> store \<Rightarrow> store" where
  "update_jobs_where_id i f s = s\<lparr>jobs := map (\<lambda>j. if job_id j = i then f j else j) (jobs s)\<rparr>"

definition select_lineItems_by_jobId :: "store \<Rightarrow> int \<Rightarrow> lineItem list" where
  "select_lineItems_by_jobId s i = filter (\<lambda>l. jobId l = i) (lineItems s)"

definition delete_lineItems_where_jobId :: "int \<Rightarrow> store \<Rightarrow> store" where
  "delete_lineItems_where_jobId i s = s\<lparr>lineItems := filter (\<lambda>l. jobId l \<noteq> i) (lineItems s)\<rparr>"

definition delete_jobs_where_id :: "int \<Rightarrow> store \<Rightarrow> store" where
  "delete_jobs_where_id i s = s\<lparr>jobs := filter (\<lambda>j. job_id j \<noteq> i) (jobs s)\<rparr>"

text \<open>\<open>like(column, prefix + '%')\<close> for a prefix without wildcard characters.\<close>

definition like_prefix :: "jsstring \<Rightarrow> jsstring \<Rightarrow> bool" where
  "like_prefix p s \<longleftrightarrow> take (length p) s = p"

text \<open>The result every server action returns: \<open>{ success: true, ... }\<close> or
  \<open>{ success: false, error }\<close>.\<close>

datatype 'a result = Success 'a | Failure jsstring

fun success :: "'a result \<Rightarrow> bool" where
  "success (Success _) = True"
| "success (Failure _) = False"

section \<open>Status workflow: \<open>src/lib/utils/workflow.ts\<close>\<close>

definition STATUS_ORDER :: "jsstring list" where
  "STATUS_ORDER = JOB_STATUSES"

datatype date_field =
  EstimateDate | ApprovalDate | StartDate | CompletionDate | InvoiceDate | PaymentDate

definition STATUS_DATE_FIELDS :: "jsstring \<Rightarrow> date_field option" where
  "STATUS_DATE_FIELDS st =
     (case map_of
        [(js ''Estimate Created'', Some EstimateDate),
         (js ''Estimate Sent'', None),
         (js ''Approved'', Some ApprovalDate),
         (js ''In Progress'', Some StartDate),
         (js ''Completed'', Some CompletionDate),
         (js ''Invoiced'', Some InvoiceDate),
         (js ''Paid'', Some PaymentDate)] st
      of Some f \<Rightarrow> f | None \<Rightarrow> None)"

definition canTransitionTo :: "jsstring \<Rightarrow> jsstring \<Rightarrow> bool" where
  "canTransitionTo currentStatus newStatus =
     (let currentIdx = indexOf STATUS_ORDER currentStatus;
          newIdx = indexOf STATUS_ORDER newStatus
      in newIdx = currentIdx + 1)"

definition getNextStatus :: "jsstring \<Rightarrow> jsstring option" where
  "getNextStatus currentStatus =
     (let currentIdx = indexOf STATUS_ORDER currentStatus
      in if currentIdx = - 1 \<or> currentIdx \<ge> int (length STATUS_ORDER) - 1 then None
         else Some (STATUS_ORDER ! nat (currentIdx + 1)))"

definition canEditJob :: "jsstring \<Rightarrow> bool" where
  "canEditJob st \<longleftrightarrow> st = js ''Estimate Created'' \<or> st = js ''Estimate Sent''"

definition canDeleteJob :: "jsstring \<Rightarrow> bool" where
  "canDeleteJob st \<longleftrightarrow> st = js ''Estimate Created'' \<or> st = js ''Estimate Sent''"

text \<open>\<open>getStatusDateUpdates\<close> returns the object to spread into the update: one date field
  set to the UTC day of \<open>date\<close>, or nothing when the status has no date field.\<close>

definition getStatusDateUpdates :: "jsstring \<Rightarrow> int \<Rightarrow> (date_field \<times> isodate) list" where
  "getStatusDateUpdates newStatus date =
     (let dateField = STATUS_DATE_FIELDS newStatus;
          dateValue = toISODate date
      in case dateField of Some f \<Rightarrow> [(f, dateValue)] | None \<Rightarrow> [])"

fun set_date_field :: "date_field \<times> isodate \<Rightarrow> job \<Rightarrow> job" where
  "set_date_field (EstimateDate, d) j = j\<lparr>estimateDate := d\<rparr>"
| "set_date_field (ApprovalDate, d) j = j\<lparr>approvalDate := Some d\<rparr>"
| "set_date_field (StartDate, d) j = j\<lparr>startDate := Some d\<rparr>"
| "set_date_field (CompletionDate, d) j = j\<lparr>completionDate := Some d\<rparr>"
| "set_date_field (InvoiceDate, d) j = j\<lparr>invoiceDate := Some d\<rparr>"
| "set_date_field (PaymentDate, d) j = j\<lparr>paymentDate := Some d\<rparr>"

definition spread_dates :: "(date_field \<times> isodate) list \<Rightarrow> job \<Rightarrow> job" where
  "spread_dates dateUpdates j = fold set_date_field dateUpdates j"

section \<open>Identifier generator: \<open>src/lib/utils/numbers.ts\<close>\<close>

definition datePrefix :: "clock \<Rightarrow> jsstring" where
  "datePrefix today =
     (let year = slice_last 2 (toString (getFullYear today));
          month = padStart 2 (digit 0) (toString (getMonth today + 1));
          day = padStart 2 (digit 0) (toString (getDate today))
      in year @ month @ day)"

definition generateEstimateNumber :: "clock \<Rightarrow> store \<Rightarrow> jsstring" where
  "generateEstimateNumber today s =
     (let count = length (filter (\<lambda>j. like_prefix (datePrefix today) (estimateNumber j)) (jobs s));
          sequenceLetter = [fromCharCode (65 + int count)];
          randomDigits = toString \<lfloor>100 + math_random today * 900\<rfloor>
      in datePrefix today @ js ''T'' @ randomDigits @ sequenceLetter)"

definition generateInvoiceNumber :: "clock \<Rightarrow> store \<Rightarrow> jsstring" where
  "generateInvoiceNumber today s =
     (let count = length (filter (\<lambda>j. case invoiceNumber j of None \<Rightarrow> False
                                       | Some n \<Rightarrow> like_prefix (datePrefix today) n) (jobs s));
          sequenceNumber = padStart 3 (digit 0) (toString (int count + 1))
      in datePrefix today @ sequenceNumber)"

text \<open>The calendar fields a \<open>Date\<close> of the years 10 and later can return.\<close>

definition valid_calendar :: "clock \<Rightarrow> bool" where
  "valid_calendar today \<longleftrightarrow>
     10 \<le> getFullYear today \<and> 0 \<le> getMonth today \<and> getMonth today \<le> 11
     \<and> 1 \<le> getDate today \<and> getDate today \<le> 31"

text \<open>The formats the parsers of the same file accept:
  \<open>/^(\d{2})(\d{2})(\d{2})T(\d{3})([A-Z])$/\<close> in \<open>parseEstimateNumber\<close> and
  \<open>/^(\d{2})(\d{2})(\d{2})(\d{3})$/\<close> in \<open>parseInvoiceNumber\<close>.\<close>

definition isDigit :: "code_unit \<Rightarrow> bool" where
  "isDigit c \<longleftrightarrow> 0x30 \<le> c \<and> c \<le> 0x39"

definition isUpperAZ :: "code_unit \<Rightarrow> bool" where
  "isUpperAZ c \<longleftrightarrow> 0x41 \<le> c \<and> c \<le> 0x5A"

definition estimateNumberPattern :: "jsstring \<Rightarrow> bool" where
  "estimateNumberPattern s \<longleftrightarrow>
     length s = 11 \<and> list_all isDigit (take 6 s) \<and> s ! 6 = 0x54
     \<and> list_all isDigit (take 3 (drop 7 s)) \<and> isUpperAZ (s ! 10)"

definition invoiceNumberPattern :: "jsstring \<Rightarrow> bool" where
  "invoiceNumberPattern s \<longleftrightarrow> length s = 9 \<and> list_all isDigit s"

section \<open>Estimates: \<open>src/lib/actions/estimates.ts\<close>\<close>

record lineItemInput =
  in_action :: jsstring
  in_amount :: rat
  in_description :: jsstring

text \<open>The validation loop of \<open>createEstimate\<close>: the message for the first bad item, from
  index \<open>i\<close> on.\<close>

fun validateLineItems :: "lineItemInput list \<Rightarrow> int \<Rightarrow> jsstring option" where
  "validateLineItems [] i = None"
| "validateLineItems (item # rest) i =
     (if trim (in_action item) = [] then
        Some (js ''Line item '' @ toString (i + 1) @ js '': Action is required'')
      else if in_amount item < 0 then
        Some (js ''Line item '' @ toString (i + 1) @ js '': Amount must be positive'')
      else if trim (in_description item) = [] then
        Some (js ''Line item '' @ toString (i + 1) @ js '': Description is required'')
      else validateLineItems rest (i + 1))"

text \<open>\<open>notes.trim() || null\<close>.\<close>

definition trim_or_null :: "jsstring \<Rightarrow> jsstring option" where
  "trim_or_null n = (if trim n = [] then None else Some (trim n))"

text \<open>The rows \<open>lineItems.map((item, index) => ...)\<close> inserts for job \<open>jid\<close>, with ids taken
  from the sequence.\<close>

definition lineItem_rows :: "int \<Rightarrow> int \<Rightarrow> lineItemInput list \<Rightarrow> lineItem list" where
  "lineItem_rows seq jid items =
     map (\<lambda>(index, item).
            \<lparr>item_id = seq + 1 + index, jobId = jid, itemNumber = index + 1,
             action = trim (in_action item), amount = toFixed2 (in_amount item),
             description = Some (trim (in_description item))\<rparr>)
         (zip (map int [0..<length items]) items)"

definition insert_lineItems :: "int \<Rightarrow> lineItemInput list \<Rightarrow> store \<Rightarrow> store" where
  "insert_lineItems jid items s =
     s\<lparr>lineItems := lineItems s @ lineItem_rows (lineItems_id_seq s) jid items,
       lineItems_id_seq := lineItems_id_seq s + int (length items)\<rparr>"

definition getEstimateById :: "store \<Rightarrow> int \<Rightarrow> (job \<times> lineItem list) option" where
  "getEstimateById s i =
     (case select_job_by_id s i of None \<Rightarrow> None
      | Some j \<Rightarrow> Some (j, sort_key itemNumber (select_lineItems_by_jobId s (job_id j))))"

definition createEstimate ::
  "clock \<Rightarrow> int \<Rightarrow> lineItemInput list \<Rightarrow> jsstring option \<Rightarrow> store
     \<Rightarrow> (job \<times> lineItem list) option result \<times> store" where
  "createEstimate now customer items notesIn s =
     (if items = [] then (Failure (js ''At least one line item is required''), s)
      else case validateLineItems items 0 of
        Some err \<Rightarrow> (Failure err, s)
      | None \<Rightarrow>
          let estimateNo = generateEstimateNumber now s;
              total = foldl (\<lambda>sum item. sum + in_amount item) 0 items;
              newJob = \<lparr>job_id = jobs_id_seq s + 1, customerId = customer,
                        estimateNumber = estimateNo, invoiceNumber = None,
                        estimateDate = toISODate (getTime now), approvalDate = None,
                        startDate = None, completionDate = None, invoiceDate = None,
                        paymentDate = None, status = js ''Estimate Created'',
                        totalAmount = toFixed2 total,
                        notes = (case notesIn of None \<Rightarrow> None | Some n \<Rightarrow> trim_or_null n),
                        createdAt = getTime now, updatedAt = getTime now\<rparr>;
              s1 = s\<lparr>jobs := jobs s @ [newJob], jobs_id_seq := jobs_id_seq s + 1\<rparr>;
              s2 = insert_lineItems (job_id newJob) items s1
          in (Success (getEstimateById s2 (job_id newJob)), s2))"

definition updateEstimate ::
  "clock \<Rightarrow> int \<Rightarrow> lineItemInput list option \<Rightarrow> jsstring option \<Rightarrow> store
     \<Rightarrow> (job \<times> lineItem list) option result \<times> store" where
  "updateEstimate now i itemsIn notesIn s =
     (case select_job_by_id s i of
        None \<Rightarrow> (Failure (js ''Estimate not found''), s)
      | Some j \<Rightarrow>
          if \<not> canEditJob (status j) then
            (Failure (js ''Cannot update estimate after approval''), s)
          else (case itemsIn of
            Some items \<Rightarrow>
              if items = [] then (Failure (js ''At least one line item is required''), s)
              else
                let s1 = delete_lineItems_where_jobId i s;
                    s2 = insert_lineItems i items s1;
                    total = foldl (\<lambda>sum item. sum + in_amount item) 0 items;
                    newNotes = (case (case notesIn of None \<Rightarrow> None | Some n \<Rightarrow> trim_or_null n)
                                of None \<Rightarrow> notes j | Some n \<Rightarrow> Some n);
                    s3 = update_jobs_where_id i
                           (\<lambda>r. r\<lparr>totalAmount := toFixed2 total, notes := newNotes,
                                  updatedAt := getTime now\<rparr>) s2
                in (Success (getEstimateById s3 i), s3)
          | None \<Rightarrow>
              (case notesIn of
                 Some n \<Rightarrow>
                   let s1 = update_jobs_where_id i
                              (\<lambda>r. r\<lparr>notes := trim_or_null n, updatedAt := getTime now\<rparr>) s
                   in (Success (getEstimateById s1 i), s1)
               | None \<Rightarrow> (Success (getEstimateById s i), s))))"

definition deleteEstimate :: "int \<Rightarrow> store \<Rightarrow> unit result \<times> store" where
  "deleteEstimate i s =
     (case select_job_by_id s i of
        None \<Rightarrow> (Failure (js ''Estimate not found''), s)
      | Some j \<Rightarrow>
          if \<not> canDeleteJob (status j) then
            (Failure (js ''Cannot delete estimate after approval''), s)
          else (Success (), delete_jobs_where_id i (delete_lineItems_where_jobId i s)))"

definition markEstimateAsSent :: "clock \<Rightarrow> int \<Rightarrow> store \<Rightarrow> unit result \<times> store" where
  "markEstimateAsSent now i s =
     (case select_job_by_id s i of
        None \<Rightarrow> (Failure (js ''Estimate not found''), s)
      | Some j \<Rightarrow>
          if status j \<noteq> js ''Estimate Created'' then
            (Failure (js ''Estimate has already been sent or approved''), s)
          else (Success (),
                update_jobs_where_id i
                  (\<lambda>r. r\<lparr>status := js ''Estimate Sent'', updatedAt := getTime now\<rparr>) s))"

definition approveEstimate :: "clock \<Rightarrow> int \<Rightarrow> store \<Rightarrow> unit result \<times> store" where
  "approveEstimate now i s =
     (case select_job_by_id s i of
        None \<Rightarrow> (Failure (js ''Estimate not found''), s)
      | Some j \<Rightarrow>
          if status j \<noteq> js ''Estimate Created'' \<and> status j \<noteq> js ''Estimate Sent'' then
            (Failure (js ''Estimate has already been approved''), s)
          else
            let dateUpdates = getStatusDateUpdates (js ''Approved'') (getTime now)
            in (Success (),
                update_jobs_where_id i
                  (\<lambda>r. (spread_dates dateUpdates (r\<lparr>status := js ''Approved''\<rparr>))
                          \<lparr>updatedAt := getTime now\<rparr>) s))"

section \<open>Jobs: \<open>src/lib/actions/jobs.ts\<close>\<close>

definition getJobById :: "store \<Rightarrow> int \<Rightarrow> (job \<times> lineItem list) option" where
  "getJobById s i =
     (case select_job_by_id s i of None \<Rightarrow> None
      | Some j \<Rightarrow> Some (j, sort_key itemNumber (select_lineItems_by_jobId s (job_id j))))"

definition updateJobStatus ::
  "clock \<Rightarrow> int \<Rightarrow> jsstring \<Rightarrow> store \<Rightarrow> (job \<times> lineItem list) option result \<times> store" where
  "updateJobStatus now i newStatus s =
     (case select_job_by_id s i of
        None \<Rightarrow> (Failure (js ''Job not found''), s)
      | Some j \<Rightarrow>
          let currentStatus = status j in
          if \<not> canTransitionTo currentStatus newStatus then
            (Failure (js ''Cannot transition from \"'' @ currentStatus @ js ''\" to \"''
                      @ newStatus @ js ''\". Status must progress in order.''), s)
          else
            let dateUpdates = getStatusDateUpdates newStatus (getTime now);
                s1 = update_jobs_where_id i
                       (\<lambda>r. (spread_dates dateUpdates (r\<lparr>status := newStatus\<rparr>))
                               \<lparr>updatedAt := getTime now\<rparr>) s
            in (Success (getJobById s1 i), s1))"

definition startJob ::
  "clock \<Rightarrow> int \<Rightarrow> store \<Rightarrow> (job \<times> lineItem list) option result \<times> store" where
  "startJob now i s = updateJobStatus now i (js ''In Progress'') s"

definition completeJob ::
  "clock \<Rightarrow> int \<Rightarrow> store \<Rightarrow> (job \<times> lineItem list) option result \<times> store" where
  "completeJob now i s = updateJobStatus now i (js ''Completed'') s"

definition updateJobNotes :: "clock \<Rightarrow> int \<Rightarrow> jsstring \<Rightarrow> store \<Rightarrow> unit result \<times> store" where
  "updateJobNotes now i n s =
     (Success (),
      update_jobs_where_id i (\<lambda>r. r\<lparr>notes := trim_or_null n, updatedAt := getTime now\<rparr>) s)"

section \<open>Invoices: \<open>src/lib/actions/invoices.ts\<close>\<close>

record overdue =
  isOverdue :: bool
  daysOverdue :: int

definition calculateOverdueStatus :: "clock \<Rightarrow> job \<Rightarrow> overdue" where
  "calculateOverdueStatus today j =
     (if status j = js ''Paid'' \<or> invoiceDate j = None then
        \<lparr>isOverdue = False, daysOverdue = 0\<rparr>
      else
        let invoiceTime = dateToTime (the (invoiceDate j));
            daysSinceInvoice = (getTime today - invoiceTime) div (1000 * 60 * 60 * 24);
            over = daysSinceInvoice > 30
        in \<lparr>isOverdue = over, daysOverdue = (if over then daysSinceInvoice - 30 else 0)\<rparr>)"

definition getInvoiceById :: "clock \<Rightarrow> store \<Rightarrow> int \<Rightarrow> (job \<times> lineItem list \<times> overdue) option" where
  "getInvoiceById today s i =
     (case select_job_by_id s i of None \<Rightarrow> None
      | Some j \<Rightarrow> Some (j, sort_key itemNumber (select_lineItems_by_jobId s (job_id j)),
                        calculateOverdueStatus today j))"

definition createInvoice ::
  "clock \<Rightarrow> int \<Rightarrow> store \<Rightarrow> (job \<times> lineItem list \<times> overdue) option result \<times> store" where
  "createInvoice now i s =
     (case select_job_by_id s i of
        None \<Rightarrow> (Failure (js ''Job not found''), s)
      | Some j \<Rightarrow>
          if status j \<noteq> js ''Completed'' then
            (Failure (js ''Job must be completed before invoicing''), s)
          else
            let invoiceNo = generateInvoiceNumber now s;
                dateUpdates = getStatusDateUpdates (js ''Invoiced'') (getTime now);
                s1 = update_jobs_where_id i
                       (\<lambda>r. (spread_dates dateUpdates
                                (r\<lparr>status := js ''Invoiced'', invoiceNumber := Some invoiceNo\<rparr>))
                               \<lparr>updatedAt := getTime now\<rparr>) s
            in (Success (getInvoiceById now s1 i), s1))"

text \<open>\<open>recordPayment\<close> takes an optional date string; an absent or empty one (\<open>None\<close>)
  is replaced by the current date.\<close>

definition recordPayment :: "clock \<Rightarrow> int \<Rightarrow> isodate option \<Rightarrow> store \<Rightarrow> unit result \<times> store" where
  "recordPayment now i paymentDateIn s =
     (case select_job_by_id s i of
        None \<Rightarrow> (Failure (js ''Invoice not found''), s)
      | Some j \<Rightarrow>
          if status j \<noteq> js ''Invoiced'' then
            (Failure (js ''Invoice is not in invoiced status''), s)
          else
            let dateValue = (case paymentDateIn of Some d \<Rightarrow> d
                             | None \<Rightarrow> toISODate (getTime now))
            in (Success (),
                update_jobs_where_id i
                  (\<lambda>r. r\<lparr>status := js ''Paid'', paymentDate := Some dateValue,
                         updatedAt := getTime now\<rparr>) s))"

definition updateInvoiceNotes :: "clock \<Rightarrow> int \<Rightarrow> jsstring \<Rightarrow> store \<Rightarrow> unit result \<times> store" where
  "updateInvoiceNotes now i n s =
     (case select_job_by_id s i of
        None \<Rightarrow> (Failure (js ''Invoice not found''), s)
      | Some j \<Rightarrow>
          if status j = js ''Paid'' then (Failure (js ''Cannot edit paid invoice''), s)
          else (Success (),
                update_jobs_where_id i
                  (\<lambda>r. r\<lparr>notes := trim_or_null n, updatedAt := getTime now\<rparr>) s))"

section \<open>The server actions as commands\<close>

text \<open>
  Every exported action that writes the jobs table, as one datatype, so that a statement can
  range over whatever is called after an invoice was created. \<open>run\<close> keeps the store an
  action leaves behind, \<open>run_all\<close> runs a sequence of calls, each at its own clock reading.
\<close>

datatype command =
    CreateEstimate int "lineItemInput list" "jsstring option"
  | UpdateEstimate int "lineItemInput list option" "jsstring option"
  | DeleteEstimate int
  | MarkEstimateAsSent int
  | ApproveEstimate int
  | UpdateJobStatus int jsstring
  | StartJob int
  | CompleteJob int
  | UpdateJobNotes int jsstring
  | CreateInvoice int
  | RecordPayment int "isodate option"
  | UpdateInvoiceNotes int jsstring

fun run :: "clock \<Rightarrow> command \<Rightarrow> store \<Rightarrow> store" where
  "run now (CreateEstimate customer items n) s = snd (createEstimate now customer items n s)"
| "run now (UpdateEstimate i items n) s = snd (updateEstimate now i items n s)"
| "run now (DeleteEstimate i) s = snd (deleteEstimate i s)"
| "run now (MarkEstimateAsSent i) s = snd (markEstimateAsSent now i s)"
| "run now (ApproveEstimate i) s = snd (approveEstimate now i s)"
| "run now (UpdateJobStatus i newStatus) s = snd (updateJobStatus now i newStatus s)"
| "run now (StartJob i) s = snd (startJob now i s)"
| "run now (CompleteJob i) s = snd (completeJob now i s)"
| "run now (UpdateJobNotes i n) s = snd (updateJobNotes now i n s)"
| "run now (CreateInvoice i) s = snd (createInvoice now i s)"
| "run now (RecordPayment i d) s = snd (recordPayment now i d s)"
| "run now (UpdateInvoiceNotes i n) s = snd (updateInvoiceNotes now i n s)"

fun run_all :: "(clock \<times> command) list \<Rightarrow> store \<Rightarrow> store" where
  "run_all [] s = s"
| "run_all ((now, cmd) # rest) s = run_all rest (run now cmd s)"

text \<open>
  Two properties of stores. \<open>holds_invoice i n s\<close>: job \<open>i\<close> is invoiced or paid and carries
  invoice number \<open>n\<close>. \<open>store_ok s\<close>: ids are unique and were drawn from the sequence, and
  only invoiced or paid jobs carry an invoice number. The empty store is \<open>store_ok\<close>.
\<close>

definition holds_invoice :: "int \<Rightarrow> jsstring \<Rightarrow> store \<Rightarrow> bool" where
  "holds_invoice i n s \<longleftrightarrow>
     (case select_job_by_id s i of None \<Rightarrow> False
      | Some j \<Rightarrow> invoiceNumber j = Some n
                  \<and> (status j = js ''Invoiced'' \<or> status j = js ''Paid''))"

definition numbered_after_invoicing :: "job \<Rightarrow> bool" where
  "numbered_after_invoicing j \<longleftrightarrow>
     invoiceNumber j = None \<or> status j = js ''Invoiced'' \<or> status j = js ''Paid''"

definition store_ok :: "store \<Rightarrow> bool" where
  "store_ok s \<longleftrightarrow>
     distinct (map job_id (jobs s))
     \<and> list_all (\<lambda>j. job_id j \<le> jobs_id_seq s \<and> numbered_after_invoicing j) (jobs s)"

definition empty_store :: store where
  "empty_store = \<lparr>jobs = [], lineItems = [], jobs_id_seq = 0, lineItems_id_seq = 0\<rparr>"

section \<open>Concrete inputs\<close>

text \<open>
  A clock reading (2 November 2026, 12:00 UTC, day 20759 of the epoch), a job row and a
  store, used where a statement is evaluated on an example.
\<close>

definition example_clock :: clock where
  "example_clock =
     \<lparr>getTime = 1793620800000, getFullYear = 2026, getMonth = 10, getDate = 2,
      math_random = 1 / 2\<rparr>"

definition example_job :: "int \<Rightarrow> jsstring \<Rightarrow> job" where
  "example_job i st =
     \<lparr>job_id = i, customerId = 1, estimateNumber = js ''261002T123A'', invoiceNumber = None,
      estimateDate = 20728, approvalDate = None, startDate = None, completionDate = None,
      invoiceDate = None, paymentDate = None, status = st, totalAmount = 701 / 2,
      notes = Some (js ''call first''), createdAt = 1790942400000, updatedAt = 1790942400000\<rparr>"

definition example_store :: "job list \<Rightarrow> store" where
  "example_store rows =
     \<lparr>jobs = rows, lineItems = [], jobs_id_seq = int (length rows), lineItems_id_seq = 0\<rparr>"

text \<open>Stores holding \<open>n\<close> estimates, or \<open>n\<close> invoices, numbered on the day of
  \<open>example_clock\<close>, with distinct ids and distinct numbers.\<close>

definition same_day_estimates :: "nat \<Rightarrow> job list" where
  "same_day_estimates n =
     map (\<lambda>k. (example_job (int k + 1) (js ''Estimate Created''))
                 \<lparr>estimateNumber := js ''261102T'' @ toString (100 + int k) @ [fromCharCode (65 + int k)],
                  estimateDate := 20759\<rparr>)
         [0..<n]"

definition same_day_invoices :: "nat \<Rightarrow> job list" where
  "same_day_invoices n =
     map (\<lambda>k. (example_job (int k + 1) (js ''Invoiced''))
                 \<lparr>estimateNumber := js ''26'' @ toString (100000 + int k) @ js ''T123A'',
                  invoiceNumber := Some (js ''261102'' @ padStart 3 (digit 0) (toString (int k + 1))),
                  invoiceDate := Some 20759\<rparr>)
         [0..<n]"

section \<open>String literals\<close>

lemma of_char_16_inject: "(of_char c :: 16 word) = of_char d \<longleftrightarrow> c = d"
proof
  assume e: "(of_char c :: 16 word) = of_char d"
  then have "unat (of_nat (of_char c) :: 16 word) = unat (of_nat (of_char d) :: 16 word)"
    by (simp add: of_nat_of_char)
  then have "(of_char c :: nat) mod 2 ^ 16 = of_char d mod 2 ^ 16"
    by (simp add: unat_of_nat)
  moreover have "(of_char c :: nat) < 65536"
    using nat_of_char_less_256[of c] by linarith
  moreover have "(of_char d :: nat) < 65536"
    using nat_of_char_less_256[of d] by linarith
  ultimately have "(of_char c :: nat) = of_char d" by simp
  then show "c = d" by simp
qed simp

lemma js_inject [simp]: "js a = js b \<longleftrightarrow> a = b"
proof -
  have "inj (of_char :: char \<Rightarrow> 16 word)"
    by (rule injI) (simp add: of_char_16_inject)
  then show ?thesis by (simp add: js_def)
qed

section \<open>The status order\<close>

lemma indexOf_from_notin: "x \<notin> set xs \<Longrightarrow> indexOf_from xs x k = - 1"
  by (induction xs arbitrary: k) auto

lemma indexOf_from_nth:
  "distinct xs \<Longrightarrow> i < length xs \<Longrightarrow> indexOf_from xs (xs ! i) k = k + int i"
proof (induction xs arbitrary: i k)
  case Nil
  then show ?case by simp
next
  case (Cons y ys)
  show ?case
  proof (cases i)
    case 0
    then show ?thesis by simp
  next
    case (Suc m)
    with Cons.prems have "ys ! m \<in> set ys" "y \<notin> set ys" "distinct ys" "m < length ys"
      by auto
    then have "y \<noteq> ys ! m" by auto
    with Cons.IH[OF \<open>distinct ys\<close> \<open>m < length ys\<close>, of "k + 1"] Suc show ?thesis
      by simp
  qed
qed

lemma distinct_JOB_STATUSES: "distinct JOB_STATUSES"
  by (simp add: JOB_STATUSES_def)

lemma length_JOB_STATUSES: "length JOB_STATUSES = 7"
  by (simp add: JOB_STATUSES_def)

lemma indexOf_status: "i < 7 \<Longrightarrow> indexOf STATUS_ORDER (JOB_STATUSES ! i) = int i"
  using indexOf_from_nth[OF distinct_JOB_STATUSES, of i 0]
  by (simp add: indexOf_def STATUS_ORDER_def length_JOB_STATUSES)

lemma indexOf_unknown: "st \<notin> set JOB_STATUSES \<Longrightarrow> indexOf STATUS_ORDER st = - 1"
  by (simp add: indexOf_def STATUS_ORDER_def indexOf_from_notin)

lemma canTransitionTo_nth:
  "i < 7 \<Longrightarrow> j < 7 \<Longrightarrow> canTransitionTo (JOB_STATUSES ! i) (JOB_STATUSES ! j) = (j = i + 1)"
  by (auto simp: canTransitionTo_def indexOf_status)

text \<open>
  Claim C1. For statuses \<open>S\<close>, \<open>S'\<close> of the fixed order of seven, \<open>canTransitionTo S S'\<close> holds
  exactly when \<open>S'\<close> is the immediate successor of \<open>S\<close> (its index is the index of \<open>S\<close> plus
  one). So it is false for staying put, for skipping ahead and for moving backward, and
  false for every target when \<open>S\<close> is the last status, Paid.
\<close>

theorem canTransitionTo_linear:
  "length JOB_STATUSES = 7
   \<and> (\<forall>i<7. \<forall>j<7. canTransitionTo (JOB_STATUSES ! i) (JOB_STATUSES ! j) = (j = i + 1))
   \<and> (\<forall>s\<in>set JOB_STATUSES. \<not> canTransitionTo s s)
   \<and> (\<forall>t\<in>set JOB_STATUSES. \<not> canTransitionTo (js ''Paid'') t)"
proof -
  have stay: "\<not> canTransitionTo s s" if "s \<in> set JOB_STATUSES" for s
  proof -
    from that obtain i where "i < 7" "s = JOB_STATUSES ! i"
      by (auto simp: in_set_conv_nth length_JOB_STATUSES)
    then show ?thesis using canTransitionTo_nth[of i i] by simp
  qed
  have paid: "js ''Paid'' = JOB_STATUSES ! 6"
    by (simp add: JOB_STATUSES_def)
  have terminal: "\<not> canTransitionTo (js ''Paid'') t" if "t \<in> set JOB_STATUSES" for t
  proof -
    from that obtain j where "j < 7" "t = JOB_STATUSES ! j"
      by (auto simp: in_set_conv_nth length_JOB_STATUSES)
    then show ?thesis using canTransitionTo_nth[of 6 j] paid by simp
  qed
  from canTransitionTo_nth stay terminal length_JOB_STATUSES show ?thesis by blast
qed

theorem canTransitionTo_linear_witness:
  "canTransitionTo (js ''Estimate Created'') (js ''Estimate Sent'')
   \<and> \<not> canTransitionTo (js ''Estimate Created'') (js ''Approved'')
   \<and> \<not> canTransitionTo (js ''Approved'') (js ''Approved'')
   \<and> \<not> canTransitionTo (js ''Paid'') (js ''Estimate Created'')"
proof -
  have nth: "JOB_STATUSES ! 0 = js ''Estimate Created''" "JOB_STATUSES ! 1 = js ''Estimate Sent''"
    "JOB_STATUSES ! 2 = js ''Approved''"
    by (simp_all add: JOB_STATUSES_def)
  have mem: "js ''Approved'' \<in> set JOB_STATUSES" "js ''Estimate Created'' \<in> set JOB_STATUSES"
    by (simp_all add: JOB_STATUSES_def)
  from canTransitionTo_linear have
    a: "\<forall>i<7. \<forall>j<7. canTransitionTo (JOB_STATUSES ! i) (JOB_STATUSES ! j) = (j = i + 1)"
    and b: "\<forall>s\<in>set JOB_STATUSES. \<not> canTransitionTo s s"
    and c: "\<forall>t\<in>set JOB_STATUSES. \<not> canTransitionTo (js ''Paid'') t"
    by blast+
  from a have "canTransitionTo (JOB_STATUSES ! 0) (JOB_STATUSES ! 1) = ((1::nat) = 0 + 1)"
    by simp
  moreover from a have "canTransitionTo (JOB_STATUSES ! 0) (JOB_STATUSES ! 2) = ((2::nat) = 0 + 1)"
    by simp
  ultimately show ?thesis using b c mem nth by simp
qed

text \<open>
  Claim C10. The status column is free text. For every current status that is not one of
  the seven, \<open>indexOf\<close> gives \<open>-1\<close>, so \<open>canTransitionTo\<close> accepts the move to the first
  status, Estimate Created, while \<open>getNextStatus\<close> returns null.
\<close>

theorem unknown_status_admits_initial:
  "current \<notin> set JOB_STATUSES \<Longrightarrow>
     canTransitionTo current (js ''Estimate Created'') \<and> getNextStatus current = None"
proof -
  assume "current \<notin> set JOB_STATUSES"
  then have "indexOf STATUS_ORDER current = - 1"
    by (rule indexOf_unknown)
  moreover have "indexOf STATUS_ORDER (js ''Estimate Created'') = 0"
    by (simp add: indexOf_def STATUS_ORDER_def JOB_STATUSES_def)
  ultimately show ?thesis
    by (simp add: canTransitionTo_def getNextStatus_def)
qed

theorem unknown_status_admits_initial_witness:
  "js ''Cancelled'' \<notin> set JOB_STATUSES
   \<and> canTransitionTo (js ''Cancelled'') (js ''Estimate Created'')
   \<and> getNextStatus (js ''Cancelled'') = None"
proof -
  have h: "js ''Cancelled'' \<notin> set JOB_STATUSES"
    by (simp add: JOB_STATUSES_def)
  from unknown_status_admits_initial[OF h] h show ?thesis by simp
qed

section \<open>Store lookups and updates\<close>

lemma find_map_same_key:
  "(\<And>r. job_id (f r) = job_id r) \<Longrightarrow>
     find (\<lambda>j. job_id j = i) (map (\<lambda>j. if job_id j = i then f j else j) rows)
       = map_option f (find (\<lambda>j. job_id j = i) rows)"
  by (induction rows) auto

lemma job_id_set_date_field [simp]: "job_id (set_date_field u r) = job_id r"
  by (cases u; cases "fst u") auto

lemma job_id_spread_dates [simp]: "job_id (spread_dates us r) = job_id r"
  unfolding spread_dates_def by (induction us arbitrary: r) auto

lemma select_update_same:
  "(\<And>r. job_id (f r) = job_id r) \<Longrightarrow>
     select_job_by_id (update_jobs_where_id i f s) i = map_option f (select_job_by_id s i)"
  by (simp add: select_job_by_id_def update_jobs_where_id_def find_map_same_key)

lemma dates_Approved: "getStatusDateUpdates (js ''Approved'') t = [(ApprovalDate, toISODate t)]"
  by (simp add: getStatusDateUpdates_def STATUS_DATE_FIELDS_def)

lemma dates_Invoiced: "getStatusDateUpdates (js ''Invoiced'') t = [(InvoiceDate, toISODate t)]"
  by (simp add: getStatusDateUpdates_def STATUS_DATE_FIELDS_def)

lemma select_example_store:
  "select_job_by_id (example_store [example_job i st]) i = Some (example_job i st)"
  by (simp add: select_job_by_id_def example_store_def example_job_def)

lemma status_example_job [simp]: "status (example_job i st) = st"
  by (simp add: example_job_def)

section \<open>Approving an estimate\<close>

text \<open>
  Claim C2. \<open>approveEstimate\<close> succeeds exactly when the job exists and its status is
  Estimate Created or Estimate Sent. On success the job's status is Approved, its
  \<open>approvalDate\<close> is the current date, and \<open>estimateNumber\<close> and \<open>invoiceNumber\<close> are as
  before; from any other status the result is a failure and the store is as before.
\<close>

theorem approveEstimate_spec:
  "(success (fst (approveEstimate now i s)) \<longleftrightarrow>
      (\<exists>j. select_job_by_id s i = Some j
         \<and> (status j = js ''Estimate Created'' \<or> status j = js ''Estimate Sent'')))
   \<and> (\<forall>j. select_job_by_id s i = Some j \<and> success (fst (approveEstimate now i s)) \<longrightarrow>
         (\<exists>j'. select_job_by_id (snd (approveEstimate now i s)) i = Some j'
            \<and> status j' = js ''Approved''
            \<and> approvalDate j' = Some (toISODate (getTime now))
            \<and> estimateNumber j' = estimateNumber j
            \<and> invoiceNumber j' = invoiceNumber j))
   \<and> (\<not> success (fst (approveEstimate now i s)) \<longrightarrow> snd (approveEstimate now i s) = s)"
proof (cases "select_job_by_id s i")
  case None
  then show ?thesis by (simp add: approveEstimate_def)
next
  case (Some j)
  show ?thesis
  proof (cases "status j = js ''Estimate Created'' \<or> status j = js ''Estimate Sent''")
    case True
    then have ok: "approveEstimate now i s =
      (Success (), update_jobs_where_id i
         (\<lambda>r. (spread_dates [(ApprovalDate, toISODate (getTime now))] (r\<lparr>status := js ''Approved''\<rparr>))
                 \<lparr>updatedAt := getTime now\<rparr>) s)"
      using Some by (auto simp: approveEstimate_def dates_Approved)
    show ?thesis
      using True Some by (simp add: ok select_update_same spread_dates_def)
  next
    case False
    then have "approveEstimate now i s = (Failure (js ''Estimate has already been approved''), s)"
      using Some by (simp add: approveEstimate_def)
    with False Some show ?thesis by simp
  qed
qed

theorem approveEstimate_spec_witness:
  "success (fst (approveEstimate example_clock 1 (example_store [example_job 1 (js ''Estimate Sent'')])))
   \<and> (\<exists>j'. select_job_by_id
              (snd (approveEstimate example_clock 1 (example_store [example_job 1 (js ''Estimate Sent'')]))) 1
              = Some j'
          \<and> status j' = js ''Approved'' \<and> approvalDate j' = Some 20759
          \<and> estimateNumber j' = js ''261002T123A'' \<and> invoiceNumber j' = None)"
proof -
  let ?s = "example_store [example_job 1 (js ''Estimate Sent'')]"
  let ?j = "example_job 1 (js ''Estimate Sent'')"
  have h: "select_job_by_id ?s 1 = Some ?j"
    by (rule select_example_store)
  have today: "toISODate (getTime example_clock) = 20759"
    by (simp add: toISODate_def example_clock_def)
  have flds: "estimateNumber ?j = js ''261002T123A''" "invoiceNumber ?j = None"
    by (simp_all add: example_job_def)
  from approveEstimate_spec[of example_clock 1 ?s] h
  have ok: "success (fst (approveEstimate example_clock 1 ?s))" by simp
  from approveEstimate_spec[of example_clock 1 ?s] h ok
  have "\<exists>j'. select_job_by_id (snd (approveEstimate example_clock 1 ?s)) 1 = Some j'
            \<and> status j' = js ''Approved''
            \<and> approvalDate j' = Some (toISODate (getTime example_clock))
            \<and> estimateNumber j' = estimateNumber ?j
            \<and> invoiceNumber j' = invoiceNumber ?j"
    by blast
  with ok show ?thesis by (simp add: today flds)
qed

section \<open>Overdue invoices\<close>

lemma floor_days: "\<lfloor>(of_int a :: rat) / 86400000\<rfloor> = a div 86400000"
  using floor_divide_of_int_eq[of a 86400000, where ?'a = rat] by simp

text \<open>
  Claim C5. The overdue calculation depends on the status, the invoice date and the current
  time only. For a Paid job or one without invoice date it gives not overdue, 0 days.
  Otherwise, with \<open>daysSinceInvoice\<close> the floor of the days between the invoice date and
  now, the job is overdue when \<open>daysSinceInvoice > 30\<close>, by \<open>daysSinceInvoice - 30\<close> days,
  and 0 days when not overdue. A job invoiced 31 days ago and unpaid is overdue by 1 day.
\<close>

theorem calculateOverdueStatus_spec:
  "(status j = js ''Paid'' \<or> invoiceDate j = None \<longrightarrow>
      calculateOverdueStatus today j = \<lparr>isOverdue = False, daysOverdue = 0\<rparr>)
   \<and> (status j \<noteq> js ''Paid'' \<and> invoiceDate j = Some d \<longrightarrow>
        calculateOverdueStatus today j =
          \<lparr>isOverdue = \<lfloor>(of_int (getTime today - dateToTime d) :: rat) / 86400000\<rfloor> > 30,
           daysOverdue =
             (if \<lfloor>(of_int (getTime today - dateToTime d) :: rat) / 86400000\<rfloor> > 30
              then \<lfloor>(of_int (getTime today - dateToTime d) :: rat) / 86400000\<rfloor> - 30 else 0)\<rparr>)
   \<and> (status j \<noteq> js ''Paid'' \<and> invoiceDate j = Some d
        \<and> getTime today - dateToTime d = 31 * 86400000 \<longrightarrow>
        calculateOverdueStatus today j = \<lparr>isOverdue = True, daysOverdue = 1\<rparr>)
   \<and> (status j' = status j \<and> invoiceDate j' = invoiceDate j \<and> getTime today' = getTime today \<longrightarrow>
        calculateOverdueStatus today' j' = calculateOverdueStatus today j)"
proof (intro conjI impI)
  assume "status j = js ''Paid'' \<or> invoiceDate j = None"
  then show "calculateOverdueStatus today j = \<lparr>isOverdue = False, daysOverdue = 0\<rparr>"
    by (auto simp: calculateOverdueStatus_def)
next
  assume a: "status j \<noteq> js ''Paid'' \<and> invoiceDate j = Some d"
  then show "calculateOverdueStatus today j =
          \<lparr>isOverdue = \<lfloor>(of_int (getTime today - dateToTime d) :: rat) / 86400000\<rfloor> > 30,
           daysOverdue =
             (if \<lfloor>(of_int (getTime today - dateToTime d) :: rat) / 86400000\<rfloor> > 30
              then \<lfloor>(of_int (getTime today - dateToTime d) :: rat) / 86400000\<rfloor> - 30 else 0)\<rparr>"
    unfolding floor_days by (simp add: calculateOverdueStatus_def Let_def)
next
  assume a: "status j \<noteq> js ''Paid'' \<and> invoiceDate j = Some d
        \<and> getTime today - dateToTime d = 31 * 86400000"
  then have "(getTime today - dateToTime d) div 86400000 = 31" by simp
  with a show "calculateOverdueStatus today j = \<lparr>isOverdue = True, daysOverdue = 1\<rparr>"
    by (simp add: calculateOverdueStatus_def Let_def)
next
  assume "status j' = status j \<and> invoiceDate j' = invoiceDate j \<and> getTime today' = getTime today"
  then show "calculateOverdueStatus today' j' = calculateOverdueStatus today j"
    by (simp add: calculateOverdueStatus_def)
qed

theorem calculateOverdueStatus_spec_witness:
  "calculateOverdueStatus (example_clock\<lparr>getTime := 1793577600000\<rparr>)
     ((example_job 1 (js ''Invoiced''))\<lparr>invoiceDate := Some 20728\<rparr>)
     = \<lparr>isOverdue = True, daysOverdue = 1\<rparr>
   \<and> calculateOverdueStatus example_clock (example_job 1 (js ''Paid''))
     = \<lparr>isOverdue = False, daysOverdue = 0\<rparr>"
proof -
  let ?t = "example_clock\<lparr>getTime := 1793577600000\<rparr>"
  let ?j = "(example_job 1 (js ''Invoiced''))\<lparr>invoiceDate := Some 20728\<rparr>"
  have h1: "status ?j \<noteq> js ''Paid'' \<and> invoiceDate ?j = Some 20728
            \<and> getTime ?t - dateToTime 20728 = 31 * 86400000"
    by (simp add: example_job_def example_clock_def dateToTime_def)
  have h2: "status (example_job 1 (js ''Paid'')) = js ''Paid''
            \<or> invoiceDate (example_job 1 (js ''Paid'')) = None"
    by (simp add: example_job_def)
  from calculateOverdueStatus_spec[of ?j ?t 20728] h1
  have a: "calculateOverdueStatus ?t ?j = \<lparr>isOverdue = True, daysOverdue = 1\<rparr>" by blast
  from calculateOverdueStatus_spec[of "example_job 1 (js ''Paid'')" example_clock] h2
  have b: "calculateOverdueStatus example_clock (example_job 1 (js ''Paid''))
     = \<lparr>isOverdue = False, daysOverdue = 0\<rparr>" by blast
  from a b show ?thesis by simp
qed

section \<open>Illegal transitions\<close>

lemma canTransitionTo_known:
  assumes "cur \<in> set JOB_STATUSES"
  shows "canTransitionTo cur new \<longleftrightarrow>
           (\<exists>k. k + 1 < length JOB_STATUSES \<and> cur = JOB_STATUSES ! k \<and> new = JOB_STATUSES ! (k + 1))"
proof -
  from assms obtain a where a: "a < 7" "cur = JOB_STATUSES ! a"
    by (auto simp: in_set_conv_nth length_JOB_STATUSES)
  show ?thesis
  proof (cases "new \<in> set JOB_STATUSES")
    case True
    then obtain b where b: "b < 7" "new = JOB_STATUSES ! b"
      by (auto simp: in_set_conv_nth length_JOB_STATUSES)
    have "canTransitionTo cur new \<longleftrightarrow> b = a + 1"
      using a b by (simp add: canTransitionTo_nth)
    moreover have "(\<exists>k. k + 1 < length JOB_STATUSES \<and> cur = JOB_STATUSES ! k \<and> new = JOB_STATUSES ! (k + 1))
        \<longleftrightarrow> b = a + 1"
    proof
      assume "\<exists>k. k + 1 < length JOB_STATUSES \<and> cur = JOB_STATUSES ! k \<and> new = JOB_STATUSES ! (k + 1)"
      then obtain k where k: "k + 1 < 7" "cur = JOB_STATUSES ! k" "new = JOB_STATUSES ! (k + 1)"
        by (auto simp: length_JOB_STATUSES)
      have "k = a" using k a distinct_JOB_STATUSES
        by (simp add: nth_eq_iff_index_eq length_JOB_STATUSES)
      moreover have "k + 1 = b" using k b distinct_JOB_STATUSES
        by (simp add: nth_eq_iff_index_eq length_JOB_STATUSES)
      ultimately show "b = a + 1" by simp
    next
      assume "b = a + 1"
      with a b show "\<exists>k. k + 1 < length JOB_STATUSES \<and> cur = JOB_STATUSES ! k \<and> new = JOB_STATUSES ! (k + 1)"
        by (auto simp: length_JOB_STATUSES intro!: exI[of _ a])
    qed
    ultimately show ?thesis by simp
  next
    case False
    then have "indexOf STATUS_ORDER new = - 1" by (rule indexOf_unknown)
    moreover have "indexOf STATUS_ORDER cur = int a" using a by (simp add: indexOf_status)
    ultimately have "\<not> canTransitionTo cur new" by (simp add: canTransitionTo_def)
    moreover have "\<not> (\<exists>k. k + 1 < length JOB_STATUSES \<and> cur = JOB_STATUSES ! k \<and> new = JOB_STATUSES ! (k + 1))"
      using False by (auto simp: in_set_conv_nth)
    ultimately show ?thesis by simp
  qed
qed






section \<open>Editing notes\<close>

text \<open>
  Claim C9 says that both note-editing operations reject a Paid job. \<open>updateJobNotes\<close> does
  not read the job at all: on a Paid job it succeeds and replaces the notes.
\<close>

theorem updateJobNotes_paid_counterexample:
  "success (fst (updateJobNotes example_clock 1 (js ''changed'')
                   (example_store [example_job 1 (js ''Paid'')])))
   \<and> map notes (jobs (example_store [example_job 1 (js ''Paid'')])) = [Some (js ''call first'')]
   \<and> map notes (jobs (snd (updateJobNotes example_clock 1 (js ''changed'')
                   (example_store [example_job 1 (js ''Paid'')])))) = [Some (js ''changed'')]"
  by (simp add: updateJobNotes_def update_jobs_where_id_def example_store_def example_job_def
      trim_or_null_def trim_def isWhiteSpace_def js_def)

text \<open>
  Claim C9, amended. \<open>updateInvoiceNotes\<close> rejects the edit of a Paid job with a failure and
  leaves the store as it was, and succeeds at any other status, storing the trimmed notes
  (null when empty). \<open>updateJobNotes\<close> has no status check: it succeeds at every status,
  Paid included, and stores the trimmed notes.
\<close>

theorem note_edits_spec:
  "(\<forall>j. select_job_by_id s i = Some j \<longrightarrow>
      (status j = js ''Paid'' \<longrightarrow>
         updateInvoiceNotes now i n s = (Failure (js ''Cannot edit paid invoice''), s))
      \<and> (status j \<noteq> js ''Paid'' \<longrightarrow>
         success (fst (updateInvoiceNotes now i n s))
         \<and> map_option notes (select_job_by_id (snd (updateInvoiceNotes now i n s)) i)
             = Some (trim_or_null n))
      \<and> map_option notes (select_job_by_id (snd (updateJobNotes now i n s)) i)
             = Some (trim_or_null n))
   \<and> success (fst (updateJobNotes now i n s))"
proof -
  let ?f = "\<lambda>r. r\<lparr>notes := trim_or_null n, updatedAt := getTime now\<rparr>"
  have job: "updateJobNotes now i n s = (Success (), update_jobs_where_id i ?f s)"
    by (simp add: updateJobNotes_def)
  have stored: "map_option notes (select_job_by_id (update_jobs_where_id i ?f s) i)
                  = Some (trim_or_null n)"
    if "select_job_by_id s i = Some j" for j
    using that by (simp add: select_update_same)
  have paid: "updateInvoiceNotes now i n s = (Failure (js ''Cannot edit paid invoice''), s)"
    if "select_job_by_id s i = Some j" "status j = js ''Paid''" for j
    using that by (simp add: updateInvoiceNotes_def)
  have unpaid: "updateInvoiceNotes now i n s = (Success (), update_jobs_where_id i ?f s)"
    if "select_job_by_id s i = Some j" "status j \<noteq> js ''Paid''" for j
    using that by (simp add: updateInvoiceNotes_def)
  from job stored paid unpaid show ?thesis
    by (auto simp del: js_inject)
qed

theorem note_edits_spec_witness:
  "updateInvoiceNotes example_clock 1 (js ''changed'') (example_store [example_job 1 (js ''Paid'')])
     = (Failure (js ''Cannot edit paid invoice''), example_store [example_job 1 (js ''Paid'')])
   \<and> success (fst (updateInvoiceNotes example_clock 1 (js ''changed'')
                     (example_store [example_job 1 (js ''Invoiced'')])))
   \<and> success (fst (updateJobNotes example_clock 1 (js ''changed'')
                     (example_store [example_job 1 (js ''Paid'')])))"
proof -
  have h1: "select_job_by_id (example_store [example_job 1 (js ''Paid'')]) 1
              = Some (example_job 1 (js ''Paid''))"
    by (rule select_example_store)
  have h2: "select_job_by_id (example_store [example_job 1 (js ''Invoiced'')]) 1
              = Some (example_job 1 (js ''Invoiced''))"
    by (rule select_example_store)
  from note_edits_spec[of "example_store [example_job 1 (js ''Paid'')]" 1 example_clock "js ''changed''"] h1
  have a: "updateInvoiceNotes example_clock 1 (js ''changed'') (example_store [example_job 1 (js ''Paid'')])
     = (Failure (js ''Cannot edit paid invoice''), example_store [example_job 1 (js ''Paid'')])"
    and c: "success (fst (updateJobNotes example_clock 1 (js ''changed'')
                     (example_store [example_job 1 (js ''Paid'')])))"
    by simp_all
  from note_edits_spec[of "example_store [example_job 1 (js ''Invoiced'')]" 1 example_clock "js ''changed''"] h2
  have b: "success (fst (updateInvoiceNotes example_clock 1 (js ''changed'')
                     (example_store [example_job 1 (js ''Invoiced'')])))"
    by simp
  from a b c show ?thesis by simp
qed

section \<open>Digits and padding\<close>

lemma unat_digit: "d < 10 \<Longrightarrow> unat (digit d) = 48 + d"
  unfolding digit_def by (subst unat_of_nat) simp

lemma isDigit_digit: "d < 10 \<Longrightarrow> isDigit (digit d)"
  by (simp add: isDigit_def word_le_nat_alt unat_digit)

lemma toString_nat_digits: "list_all isDigit (toString_nat n)"
proof (induction n rule: toString_nat.induct)
  case (1 n)
  show ?case
  proof (cases "n < 10")
    case True
    then show ?thesis by (simp add: toString_nat.simps[of n] isDigit_digit)
  next
    case False
    with 1 show ?thesis by (simp add: toString_nat.simps[of n] isDigit_digit)
  qed
qed

lemma length_toString_nat_1: "n < 10 \<Longrightarrow> length (toString_nat n) = 1"
  by (simp add: toString_nat.simps[of n])

lemma length_toString_nat_2: "10 \<le> n \<Longrightarrow> n < 100 \<Longrightarrow> length (toString_nat n) = 2"
  by (simp add: toString_nat.simps[of n] length_toString_nat_1)

lemma length_toString_nat_3: "100 \<le> n \<Longrightarrow> n < 1000 \<Longrightarrow> length (toString_nat n) = 3"
  by (simp add: toString_nat.simps[of n] length_toString_nat_2)

lemma length_toString_nat_pos: "Suc 0 \<le> length (toString_nat n)"
  by (subst toString_nat.simps) simp

lemma length_toString_nat_ge2: "10 \<le> n \<Longrightarrow> 2 \<le> length (toString_nat n)"
  by (simp add: toString_nat.simps[of n] length_toString_nat_pos)

lemma list_all_replicate: "P x \<Longrightarrow> list_all P (replicate n x)"
  by (induction n) auto

lemma list_all_drop: "list_all P xs \<Longrightarrow> list_all P (drop k xs)"
  by (induction xs arbitrary: k) (auto simp: drop_Cons split: nat.splits)

lemma two_digits:
  assumes "0 \<le> v" "v < 100"
  shows "length (padStart 2 (digit 0) (toString v)) = 2
         \<and> list_all isDigit (padStart 2 (digit 0) (toString v))"
proof (cases "v < 10")
  case True
  with assms show ?thesis
    by (simp add: padStart_def toString_def length_toString_nat_1 toString_nat_digits isDigit_digit)
next
  case False
  with assms have "length (toString_nat (nat v)) = 2"
    by (intro length_toString_nat_2) auto
  with assms show ?thesis
    by (simp add: padStart_def toString_def toString_nat_digits)
qed

lemma year_digits:
  assumes "10 \<le> y"
  shows "length (slice_last 2 (toString y)) = 2 \<and> list_all isDigit (slice_last 2 (toString y))"
proof -
  from assms have "2 \<le> length (toString_nat (nat y))"
    by (intro length_toString_nat_ge2) auto
  with assms show ?thesis
    by (simp add: slice_last_def toString_def toString_nat_digits list_all_drop)
qed

lemma datePrefix_digits:
  assumes "valid_calendar today"
  shows "length (datePrefix today) = 6 \<and> list_all isDigit (datePrefix today)"
proof -
  from assms have y: "10 \<le> getFullYear today"
    and m: "0 \<le> getMonth today + 1" "getMonth today + 1 < 100"
    and d: "0 \<le> getDate today" "getDate today < 100"
    by (simp_all add: valid_calendar_def)
  from year_digits[OF y] two_digits[OF m] two_digits[OF d] show ?thesis
    by (simp add: datePrefix_def)
qed

lemma datePrefix_example: "datePrefix example_clock = js ''261102''"
  by (simp add: datePrefix_def example_clock_def toString_def toString_nat.simps padStart_def
      slice_last_def digit_def js_def)


section \<open>Estimate and invoice numbers\<close>

lemma count_all: "(\<And>j. j \<in> set rows \<Longrightarrow> P j) \<Longrightarrow> length (filter P rows) = length rows"
  by (induction rows) auto

lemma count_same_day_estimates:
  "length (filter (\<lambda>j. like_prefix (js ''261102'') (estimateNumber j)) (same_day_estimates n)) = n"
proof -
  have "length (filter (\<lambda>j. like_prefix (js ''261102'') (estimateNumber j)) (same_day_estimates n))
          = length (same_day_estimates n)"
    by (rule count_all) (auto simp: same_day_estimates_def like_prefix_def js_def)
  then show ?thesis by (simp add: same_day_estimates_def)
qed

lemma count_same_day_invoices:
  "length (filter (\<lambda>j. case invoiceNumber j of None \<Rightarrow> False
                       | Some n \<Rightarrow> like_prefix (js ''261102'') n) (same_day_invoices n)) = n"
proof -
  have "length (filter (\<lambda>j. case invoiceNumber j of None \<Rightarrow> False
                       | Some n \<Rightarrow> like_prefix (js ''261102'') n) (same_day_invoices n))
          = length (same_day_invoices n)"
    by (rule count_all) (auto simp: same_day_invoices_def like_prefix_def js_def)
  then show ?thesis by (simp add: same_day_invoices_def)
qed

lemma isUpperAZ_fromCharCode: "n < 26 \<Longrightarrow> isUpperAZ (fromCharCode (65 + int n))"
proof -
  assume n: "n < 26"
  have "fromCharCode (65 + int n) = (of_nat (65 + n) :: 16 word)"
    by (simp add: fromCharCode_def)
  moreover have "unat (of_nat (65 + n) :: 16 word) = 65 + n"
    using n by (subst unat_of_nat) simp
  ultimately show ?thesis using n
    by (simp add: isUpperAZ_def word_le_nat_alt)
qed

lemma random_digits:
  fixes u :: rat
  assumes "0 \<le> u" "u < 1"
  shows "length (toString \<lfloor>100 + u * 900\<rfloor>) = 3 \<and> list_all isDigit (toString \<lfloor>100 + u * 900\<rfloor>)"
proof -
  define n where "n = \<lfloor>100 + u * 900\<rfloor>"
  have lo: "100 \<le> n" using assms by (simp add: n_def le_floor_iff)
  have "100 + u * 900 < 1000" using assms by simp
  then have hi: "n < 1000" by (simp add: n_def floor_less_iff)
  have "100 \<le> nat n" "nat n < 1000"
    using lo hi by linarith+
  then have "length (toString_nat (nat n)) = 3"
    by (rule length_toString_nat_3)
  with lo have "length (toString n) = 3 \<and> list_all isDigit (toString n)"
    by (simp add: toString_def toString_nat_digits)
  then show ?thesis by (simp only: n_def)
qed

text \<open>As long as fewer than 26 estimate numbers of the day exist, the generated number has
  the documented format \<open>YYMMDDTXXXL\<close>, with the letter at offset \<open>count\<close> from \<open>A\<close>.\<close>

lemma generateEstimateNumber_format:
  assumes "valid_calendar today" "0 \<le> math_random today" "math_random today < 1"
    and "length (filter (\<lambda>j. like_prefix (datePrefix today) (estimateNumber j)) (jobs s)) = count"
    and "count < 26"
  shows "estimateNumberPattern (generateEstimateNumber today s)
         \<and> last (generateEstimateNumber today s) = fromCharCode (65 + int count)"
proof -
  let ?r = "toString \<lfloor>100 + math_random today * 900\<rfloor>"
  from datePrefix_digits[OF assms(1)]
  have p: "length (datePrefix today) = 6" "list_all isDigit (datePrefix today)" by simp_all
  from random_digits[OF assms(2,3)]
  have r: "length ?r = 3" "list_all isDigit ?r" by simp_all
  have g: "generateEstimateNumber today s
             = datePrefix today @ js ''T'' @ ?r @ [fromCharCode (65 + int count)]"
    using assms(4) by (simp add: generateEstimateNumber_def)
  have t: "js ''T'' = [0x54]" by (simp add: js_def)
  show ?thesis
    using p r isUpperAZ_fromCharCode[OF assms(5)]
    by (simp add: g t estimateNumberPattern_def nth_append)
qed

text \<open>
  Claim C3 says that the estimate number is well formed in every store state, ending with
  one uppercase letter. The letter is \<open>String.fromCharCode(65 + count)\<close> with no bound on
  \<open>count\<close>: with 26 estimates already numbered today the number ends in \<open>[\<close>, which the
  format of \<open>parseEstimateNumber\<close> rejects.
\<close>

theorem generateEstimateNumber_26th:
  "generateEstimateNumber example_clock (example_store (same_day_estimates 26))
     = js ''261102T550[''
   \<and> \<not> estimateNumberPattern
         (generateEstimateNumber example_clock (example_store (same_day_estimates 26)))"
proof -
  have r: "toString \<lfloor>100 + math_random example_clock * 900\<rfloor> = js ''550''"
    by (simp add: example_clock_def toString_def toString_nat.simps digit_def js_def)
  have l: "fromCharCode (65 + int 26) = 0x5B"
    by (simp add: fromCharCode_def)
  have cnt: "length (filter (\<lambda>j. like_prefix (datePrefix example_clock) (estimateNumber j))
                       (jobs (example_store (same_day_estimates 26)))) = 26"
    by (simp add: datePrefix_example example_store_def count_same_day_estimates)
  have "generateEstimateNumber example_clock (example_store (same_day_estimates 26))
     = datePrefix example_clock @ js ''T''
         @ toString \<lfloor>100 + math_random example_clock * 900\<rfloor> @ [fromCharCode (65 + int 26)]"
    by (simp only: generateEstimateNumber_def Let_def cnt)
  also have "\<dots> = js ''261102'' @ js ''T'' @ js ''550'' @ [0x5B]"
    by (simp only: datePrefix_example r l)
  also have "\<dots> = js ''261102T550[''"
    by (simp add: js_def)
  finally have g: "generateEstimateNumber example_clock (example_store (same_day_estimates 26))
     = js ''261102T550[''" .
  have "\<not> estimateNumberPattern (js ''261102T550['')"
    by (simp add: estimateNumberPattern_def isUpperAZ_def js_def)
  with g show ?thesis by simp
qed

text \<open>As long as fewer than 999 invoice numbers of the day exist, the generated number has
  the documented format \<open>YYMMDDXXX\<close>, with the sequence number \<open>count + 1\<close>.\<close>

lemma generateInvoiceNumber_format:
  assumes "valid_calendar today"
    and "length (filter (\<lambda>j. case invoiceNumber j of None \<Rightarrow> False
                            | Some n \<Rightarrow> like_prefix (datePrefix today) n) (jobs s)) = count"
    and "count < 999"
  shows "invoiceNumberPattern (generateInvoiceNumber today s)
         \<and> generateInvoiceNumber today s
             = datePrefix today @ padStart 3 (digit 0) (toString_nat (count + 1))"
proof -
  from datePrefix_digits[OF assms(1)]
  have p: "length (datePrefix today) = 6" "list_all isDigit (datePrefix today)" by simp_all
  have ts: "toString (int count + 1) = toString_nat (count + 1)"
    by (simp add: toString_def nat_add_distrib)
  have g: "generateInvoiceNumber today s
             = datePrefix today @ padStart 3 (digit 0) (toString_nat (count + 1))"
    using assms(2) ts by (simp add: generateInvoiceNumber_def)
  have len: "length (padStart 3 (digit 0) (toString_nat (count + 1))) = 3"
  proof -
    consider "count + 1 < 10" | "10 \<le> count + 1" "count + 1 < 100"
      | "100 \<le> count + 1" "count + 1 < 1000"
      using assms(3) by linarith
    then show ?thesis
    proof cases
      case 1
      then show ?thesis by (simp add: padStart_def length_toString_nat_1)
    next
      case 2
      then show ?thesis by (simp add: padStart_def length_toString_nat_2)
    next
      case 3
      then show ?thesis by (simp add: padStart_def length_toString_nat_3)
    qed
  qed
  have dig: "list_all isDigit (padStart 3 (digit 0) (toString_nat (count + 1)))"
    by (simp add: padStart_def toString_nat_digits isDigit_digit list_all_replicate)
  from p len dig show ?thesis
    by (simp add: g invoiceNumberPattern_def)
qed

text \<open>
  Claim C4 says that the invoice number is the date prefix followed by a 3-digit sequence
  number, in every store state. \<open>padStart(3, '0')\<close> only pads: with 999 invoices already
  numbered today the sequence part is \<open>1000\<close>, four digits, which the format of
  \<open>parseInvoiceNumber\<close> rejects. The first invoice of a day gets \<open>001\<close>.
\<close>

theorem generateInvoiceNumber_1000th:
  "generateInvoiceNumber example_clock (example_store (same_day_invoices 999))
     = js ''2611021000''
   \<and> \<not> invoiceNumberPattern
         (generateInvoiceNumber example_clock (example_store (same_day_invoices 999)))
   \<and> generateInvoiceNumber example_clock (example_store []) = js ''261102001''"
proof -
  have t: "toString (int 999 + 1) = js ''1000''"
    by (simp add: toString_def toString_nat.simps digit_def js_def)
  have cnt: "length (filter (\<lambda>j. case invoiceNumber j of None \<Rightarrow> False
                                 | Some n \<Rightarrow> like_prefix (datePrefix example_clock) n)
                       (jobs (example_store (same_day_invoices 999)))) = 999"
    unfolding datePrefix_example example_store_def by (simp add: count_same_day_invoices)
  have "generateInvoiceNumber example_clock (example_store (same_day_invoices 999))
     = datePrefix example_clock @ padStart 3 (digit 0) (toString (int 999 + 1))"
    by (simp only: generateInvoiceNumber_def Let_def cnt)
  also have "\<dots> = js ''261102'' @ padStart 3 (digit 0) (js ''1000'')"
    by (simp only: datePrefix_example t)
  also have "\<dots> = js ''2611021000''"
    by (simp add: js_def padStart_def)
  finally have g: "generateInvoiceNumber example_clock (example_store (same_day_invoices 999))
     = js ''2611021000''" .
  have n: "\<not> invoiceNumberPattern (js ''2611021000'')"
    by (simp add: invoiceNumberPattern_def js_def)
  have t1: "toString (int 0 + 1) = js ''1''"
    by (simp add: toString_def toString_nat.simps digit_def js_def)
  have cnt0: "length (filter (\<lambda>j. case invoiceNumber j of None \<Rightarrow> False
                                 | Some n \<Rightarrow> like_prefix (datePrefix example_clock) n)
                       (jobs (example_store []))) = 0"
    by (simp add: example_store_def)
  have "generateInvoiceNumber example_clock (example_store [])
     = datePrefix example_clock @ padStart 3 (digit 0) (toString (int 0 + 1))"
    by (simp only: generateInvoiceNumber_def Let_def cnt0)
  also have "\<dots> = js ''261102'' @ padStart 3 (digit 0) (js ''1'')"
    by (simp only: datePrefix_example t1)
  also have "\<dots> = js ''261102001''"
    by (simp add: js_def padStart_def digit_def numeral_2_eq_2)
  finally have f: "generateInvoiceNumber example_clock (example_store []) = js ''261102001''" .
  from g n f show ?thesis by simp
qed

section \<open>Creating an estimate\<close>



lemma jobs_insert_lineItems [simp]: "jobs (insert_lineItems jid items s) = jobs s"
  by (simp add: insert_lineItems_def)





section \<open>Invoice numbers stay\<close>

lemma status_set_date_field [simp]: "status (set_date_field u r) = status r"
  by (cases u; cases "fst u") auto

lemma invoiceNumber_set_date_field [simp]: "invoiceNumber (set_date_field u r) = invoiceNumber r"
  by (cases u; cases "fst u") auto

lemma status_spread_dates [simp]: "status (spread_dates us r) = status r"
  unfolding spread_dates_def by (induction us arbitrary: r) auto

lemma invoiceNumber_spread_dates [simp]: "invoiceNumber (spread_dates us r) = invoiceNumber r"
  unfolding spread_dates_def by (induction us arbitrary: r) auto

lemma find_map_other_key:
  "(\<And>r. job_id (f r) = job_id r) \<Longrightarrow> k \<noteq> i \<Longrightarrow>
     find (\<lambda>j. job_id j = i) (map (\<lambda>j. if job_id j = k then f j else j) rows)
       = find (\<lambda>j. job_id j = i) rows"
  by (induction rows) auto

lemma select_update:
  "(\<And>r. job_id (f r) = job_id r) \<Longrightarrow>
     select_job_by_id (update_jobs_where_id k f s) i
       = (if k = i then map_option f (select_job_by_id s i) else select_job_by_id s i)"
  by (simp add: select_job_by_id_def update_jobs_where_id_def find_map_same_key find_map_other_key)

lemma select_delete_other:
  "k \<noteq> i \<Longrightarrow> select_job_by_id (delete_jobs_where_id k s) i = select_job_by_id s i"
proof -
  have "k \<noteq> i \<Longrightarrow> find (\<lambda>j. job_id j = i) (filter (\<lambda>j. job_id j \<noteq> k) rows)
          = find (\<lambda>j. job_id j = i) rows" for rows :: "job list"
    by (induction rows) auto
  then show "k \<noteq> i \<Longrightarrow> ?thesis"
    by (simp add: select_job_by_id_def delete_jobs_where_id_def)
qed

lemma select_jobs_cong: "jobs s' = jobs s \<Longrightarrow> select_job_by_id s' i = select_job_by_id s i"
  by (simp add: select_job_by_id_def)

lemma jobs_delete_lineItems [simp]: "jobs (delete_lineItems_where_jobId k s) = jobs s"
  by (simp add: delete_lineItems_where_jobId_def)

lemma select_append:
  "select_job_by_id s i = Some j \<Longrightarrow> jobs s' = jobs s @ rows \<Longrightarrow> select_job_by_id s' i = Some j"
proof -
  have "find P xs = Some j \<Longrightarrow> find P (xs @ ys) = Some j" for P and xs ys :: "job list"
    by (induction xs) auto
  then show "select_job_by_id s i = Some j \<Longrightarrow> jobs s' = jobs s @ rows \<Longrightarrow> ?thesis"
    by (simp add: select_job_by_id_def)
qed

lemma canTransitionTo_Invoiced: "canTransitionTo (js ''Invoiced'') new \<longleftrightarrow> new = js ''Paid''"
proof -
  have m: "js ''Invoiced'' \<in> set JOB_STATUSES" by (simp add: JOB_STATUSES_def)
  have five: "js ''Invoiced'' = JOB_STATUSES ! 5" and six: "JOB_STATUSES ! 6 = js ''Paid''"
    by (simp_all add: JOB_STATUSES_def)
  show ?thesis
  proof
    assume "canTransitionTo (js ''Invoiced'') new"
    with canTransitionTo_known[OF m] obtain k where k: "k + 1 < 7"
      "js ''Invoiced'' = JOB_STATUSES ! k" "new = JOB_STATUSES ! (k + 1)"
      by (auto simp: length_JOB_STATUSES)
    from k(1,2) five have "k = 5" using distinct_JOB_STATUSES
      by (simp add: nth_eq_iff_index_eq length_JOB_STATUSES)
    with k(3) six show "new = js ''Paid''" by simp
  next
    assume "new = js ''Paid''"
    with canTransitionTo_nth[of 5 6] five six show "canTransitionTo (js ''Invoiced'') new"
      by simp
  qed
qed

lemma canTransitionTo_Paid: "\<not> canTransitionTo (js ''Paid'') new"
proof
  have m: "js ''Paid'' \<in> set JOB_STATUSES" by (simp add: JOB_STATUSES_def)
  have six: "js ''Paid'' = JOB_STATUSES ! 6" by (simp add: JOB_STATUSES_def)
  assume "canTransitionTo (js ''Paid'') new"
  with canTransitionTo_known[OF m] obtain k where k: "k + 1 < 7" "js ''Paid'' = JOB_STATUSES ! k"
    by (auto simp: length_JOB_STATUSES)
  from k six have "k = 6" using distinct_JOB_STATUSES
    by (simp add: nth_eq_iff_index_eq length_JOB_STATUSES)
  with k(1) show False by simp
qed

lemma updateJobStatus_holds_invoice:
  assumes "holds_invoice i n s"
  shows "holds_invoice i n (snd (updateJobStatus now k newStatus s))"
proof (cases "select_job_by_id s k")
  case None
  with assms show ?thesis by (simp add: updateJobStatus_def)
next
  case (Some j)
  show ?thesis
  proof (cases "canTransitionTo (status j) newStatus")
    case False
    with Some assms show ?thesis by (simp add: updateJobStatus_def)
  next
    case True
    have upd: "snd (updateJobStatus now k newStatus s)
        = update_jobs_where_id k
            (\<lambda>r. (spread_dates (getStatusDateUpdates newStatus (getTime now)) (r\<lparr>status := newStatus\<rparr>))
                    \<lparr>updatedAt := getTime now\<rparr>) s"
      using Some True by (simp add: updateJobStatus_def Let_def)
    show ?thesis
    proof (cases "k = i")
      case False
      with assms show ?thesis by (simp add: upd holds_invoice_def select_update)
    next
      case True
      with Some assms have st: "status j = js ''Invoiced'' \<or> status j = js ''Paid''"
        and num: "invoiceNumber j = Some n"
        by (simp_all add: holds_invoice_def)
      from st \<open>canTransitionTo (status j) newStatus\<close> have "newStatus = js ''Paid''"
        by (auto simp: canTransitionTo_Invoiced canTransitionTo_Paid)
      with True Some num have "holds_invoice i n (update_jobs_where_id k
            (\<lambda>r. (spread_dates (getStatusDateUpdates newStatus (getTime now)) (r\<lparr>status := newStatus\<rparr>))
                    \<lparr>updatedAt := getTime now\<rparr>) s)"
        by (simp add: holds_invoice_def select_update)
      then show ?thesis by (simp only: upd)
    qed
  qed
qed

lemma run_holds_invoice:
  assumes "holds_invoice i n s"
  shows "holds_invoice i n (run now cmd s)"
proof (cases cmd)
  case (CreateEstimate customer items notesIn)
  show ?thesis
  proof (cases "items = [] \<or> validateLineItems items 0 \<noteq> None")
    case True
    with assms CreateEstimate show ?thesis
      by (auto simp: createEstimate_def)
  next
    case False
    then have "\<exists>row. jobs (run now cmd s) = jobs s @ [row]"
      using CreateEstimate by (simp add: createEstimate_def Let_def)
    then obtain row where "jobs (run now cmd s) = jobs s @ [row]" by blast
    with assms select_append[of s i _ "run now cmd s" "[row]"] show ?thesis
      by (auto simp: holds_invoice_def split: option.splits)
  qed
next
  case (UpdateEstimate k items notesIn)
  with assms show ?thesis
    by (cases "k = i")
       (auto simp: updateEstimate_def holds_invoice_def canEditJob_def Let_def select_update
          select_jobs_cong[of "insert_lineItems _ _ _"] select_jobs_cong[of "delete_lineItems_where_jobId _ _"]
          split: option.splits)
next
  case (DeleteEstimate k)
  with assms show ?thesis
    by (cases "k = i")
       (auto simp: deleteEstimate_def holds_invoice_def canDeleteJob_def select_delete_other
          select_jobs_cong[of "delete_lineItems_where_jobId _ _"] split: option.splits)
next
  case (MarkEstimateAsSent k)
  with assms show ?thesis
    by (cases "k = i")
       (auto simp: markEstimateAsSent_def holds_invoice_def select_update split: option.splits)
next
  case (ApproveEstimate k)
  with assms show ?thesis
    by (cases "k = i")
       (auto simp: approveEstimate_def holds_invoice_def select_update Let_def split: option.splits)
next
  case (UpdateJobStatus k newStatus)
  with assms show ?thesis by (simp add: updateJobStatus_holds_invoice)
next
  case (StartJob k)
  with assms show ?thesis by (simp add: startJob_def updateJobStatus_holds_invoice)
next
  case (CompleteJob k)
  with assms show ?thesis by (simp add: completeJob_def updateJobStatus_holds_invoice)
next
  case (UpdateJobNotes k notesIn)
  with assms show ?thesis
    by (cases "k = i")
       (auto simp: updateJobNotes_def holds_invoice_def select_update split: option.splits)
next
  case (CreateInvoice k)
  with assms show ?thesis
    by (cases "k = i")
       (auto simp: createInvoice_def holds_invoice_def select_update Let_def split: option.splits)
next
  case (RecordPayment k d)
  with assms show ?thesis
    by (cases "k = i")
       (auto simp: recordPayment_def holds_invoice_def select_update Let_def split: option.splits)
next
  case (UpdateInvoiceNotes k notesIn)
  with assms show ?thesis
    by (cases "k = i")
       (auto simp: updateInvoiceNotes_def holds_invoice_def select_update split: option.splits)
qed

lemma run_all_holds_invoice:
  "holds_invoice i n s \<Longrightarrow> holds_invoice i n (run_all cmds s)"
  by (induction cmds arbitrary: s) (auto simp: run_holds_invoice)

section \<open>Only invoiced jobs carry an invoice number\<close>

lemma find_unique_row:
  "distinct (map job_id rows) \<Longrightarrow> r \<in> set rows \<Longrightarrow> find (\<lambda>j. job_id j = job_id r) rows = Some r"
proof (induction rows)
  case Nil
  then show ?case by simp
next
  case (Cons x xs)
  then show ?case by (cases "x = r") (auto simp: image_iff)
qed

lemma store_ok_update:
  assumes ok: "store_ok s"
    and key: "\<And>r. job_id (f r) = job_id r"
    and num: "\<And>j. select_job_by_id s k = Some j \<Longrightarrow> numbered_after_invoicing (f j)"
  shows "store_ok (update_jobs_where_id k f s)"
proof -
  let ?g = "\<lambda>j. if job_id j = k then f j else j"
  have ids: "map job_id (map ?g (jobs s)) = map job_id (jobs s)"
    using key by (induction "jobs s") (auto simp: comp_def)
  have each: "job_id (?g r) \<le> jobs_id_seq s \<and> numbered_after_invoicing (?g r)"
    if r: "r \<in> set (jobs s)" for r
  proof (cases "job_id r = k")
    case False
    with ok r show ?thesis by (simp add: store_ok_def list_all_iff)
  next
    case True
    from ok r have "find (\<lambda>j. job_id j = job_id r) (jobs s) = Some r"
      by (intro find_unique_row) (simp_all add: store_ok_def)
    with True have "select_job_by_id s k = Some r" by (simp add: select_job_by_id_def)
    then have n: "numbered_after_invoicing (f r)" by (rule num)
    from ok r have "job_id r \<le> jobs_id_seq s" by (simp add: store_ok_def list_all_iff)
    with n True key[of r] show ?thesis by simp
  qed
  have d: "distinct (map job_id (map ?g (jobs s)))"
    using ok by (simp only: ids) (simp add: store_ok_def)
  have l: "list_all (\<lambda>j. job_id j \<le> jobs_id_seq s \<and> numbered_after_invoicing j) (map ?g (jobs s))"
    unfolding list_all_iff
  proof
    fix x
    assume "x \<in> set (map ?g (jobs s))"
    then obtain r where r: "r \<in> set (jobs s)" "x = ?g r"
      unfolding set_map by blast
    from each[OF r(1)] r(2) show "job_id x \<le> jobs_id_seq s \<and> numbered_after_invoicing x"
      by (simp only:)
  qed
  from d l show ?thesis
    unfolding store_ok_def update_jobs_where_id_def by simp
qed

lemma store_ok_jobs_cong:
  "store_ok s \<Longrightarrow> jobs s' = jobs s \<Longrightarrow> jobs_id_seq s' = jobs_id_seq s \<Longrightarrow> store_ok s'"
  by (simp add: store_ok_def)

lemma store_ok_delete: "store_ok s \<Longrightarrow> store_ok (delete_jobs_where_id k s)"
  by (simp add: store_ok_def delete_jobs_where_id_def list_all_iff distinct_map_filter)

lemma store_ok_lineItems [simp]:
  "store_ok (insert_lineItems jid items s) = store_ok s"
  "store_ok (delete_lineItems_where_jobId k s) = store_ok s"
  by (simp_all add: store_ok_def insert_lineItems_def delete_lineItems_where_jobId_def)

lemma jobs_id_seq_insert_lineItems [simp]:
  "jobs_id_seq (insert_lineItems jid items s) = jobs_id_seq s"
  by (simp add: insert_lineItems_def)

lemma store_ok_row: "store_ok s \<Longrightarrow> select_job_by_id s k = Some j \<Longrightarrow> numbered_after_invoicing j"
proof -
  assume ok: "store_ok s" and "select_job_by_id s k = Some j"
  then have "j \<in> set (jobs s)"
    by (auto simp: select_job_by_id_def find_Some_iff)
  with ok show ?thesis by (simp add: store_ok_def list_all_iff)
qed

lemma store_ok_empty: "store_ok empty_store"
  by (simp add: store_ok_def empty_store_def)

lemma store_ok_createEstimate:
  assumes "store_ok s"
  shows "store_ok (snd (createEstimate now customer items notesIn s))"
proof (cases "items = [] \<or> validateLineItems items 0 \<noteq> None")
  case True
  with assms show ?thesis by (auto simp: createEstimate_def)
next
  case False
  have fresh: "jobs_id_seq s + 1 \<notin> job_id ` set (jobs s)"
    using assms by (auto simp: store_ok_def list_all_iff)
  from False assms fresh show ?thesis
    by (auto simp: createEstimate_def Let_def store_ok_def list_all_iff numbered_after_invoicing_def)
qed

lemma store_ok_updateJobStatus:
  assumes "store_ok s"
  shows "store_ok (snd (updateJobStatus now k newStatus s))"
proof (cases "select_job_by_id s k")
  case None
  with assms show ?thesis by (simp add: updateJobStatus_def)
next
  case (Some j)
  show ?thesis
  proof (cases "canTransitionTo (status j) newStatus")
    case False
    with Some assms show ?thesis by (simp add: updateJobStatus_def)
  next
    case True
    have upd: "snd (updateJobStatus now k newStatus s)
        = update_jobs_where_id k
            (\<lambda>r. (spread_dates (getStatusDateUpdates newStatus (getTime now)) (r\<lparr>status := newStatus\<rparr>))
                    \<lparr>updatedAt := getTime now\<rparr>) s"
      using Some True by (simp add: updateJobStatus_def Let_def)
    from store_ok_row[OF assms Some] True
    have "invoiceNumber j = None \<or> newStatus = js ''Paid''"
      by (auto simp: numbered_after_invoicing_def canTransitionTo_Invoiced canTransitionTo_Paid)
    then have "store_ok (update_jobs_where_id k
            (\<lambda>r. (spread_dates (getStatusDateUpdates newStatus (getTime now)) (r\<lparr>status := newStatus\<rparr>))
                    \<lparr>updatedAt := getTime now\<rparr>) s)"
      using Some by (intro store_ok_update[OF assms]) (auto simp: numbered_after_invoicing_def)
    then show ?thesis by (simp only: upd)
  qed
qed

lemma run_store_ok:
  assumes "store_ok s"
  shows "store_ok (run now cmd s)"
proof (cases cmd)
  case (CreateEstimate customer items notesIn)
  with assms show ?thesis by (simp add: store_ok_createEstimate)
next
  case (UpdateEstimate k items notesIn)
  have a: "store_ok (update_jobs_where_id k (\<lambda>r. r\<lparr>totalAmount := t, notes := n', updatedAt := u\<rparr>) s')"
    if "store_ok s'" "jobs s' = jobs s" for t n' u s'
    using that store_ok_row[OF assms]
    by (intro store_ok_update) (auto simp: numbered_after_invoicing_def select_jobs_cong[of s' s])
  have b: "store_ok (update_jobs_where_id k (\<lambda>r. r\<lparr>notes := n', updatedAt := u\<rparr>) s)" for n' u
    using store_ok_row[OF assms]
    by (intro store_ok_update[OF assms]) (auto simp: numbered_after_invoicing_def)
  from assms UpdateEstimate show ?thesis
    by (auto simp: updateEstimate_def Let_def a b split: option.splits)
next
  case (DeleteEstimate k)
  with assms show ?thesis
    by (auto simp: deleteEstimate_def store_ok_delete split: option.splits)
next
  case (MarkEstimateAsSent k)
  have "store_ok (update_jobs_where_id k (\<lambda>r. r\<lparr>status := js ''Estimate Sent'', updatedAt := u\<rparr>) s)"
    if "select_job_by_id s k = Some j" "status j = js ''Estimate Created''" for j u
    using that store_ok_row[OF assms that(1)]
    by (intro store_ok_update[OF assms]) (auto simp: numbered_after_invoicing_def)
  with assms MarkEstimateAsSent show ?thesis
    by (auto simp: markEstimateAsSent_def split: option.splits)
next
  case (ApproveEstimate k)
  have "store_ok (update_jobs_where_id k
          (\<lambda>r. (spread_dates us (r\<lparr>status := js ''Approved''\<rparr>))\<lparr>updatedAt := u\<rparr>) s)"
    if "select_job_by_id s k = Some j"
      "status j = js ''Estimate Created'' \<or> status j = js ''Estimate Sent''" for j u us
    using that store_ok_row[OF assms that(1)]
    by (intro store_ok_update[OF assms]) (auto simp: numbered_after_invoicing_def)
  with assms ApproveEstimate show ?thesis
    by (auto simp: approveEstimate_def Let_def split: option.splits)
next
  case (UpdateJobStatus k newStatus)
  with assms show ?thesis by (simp add: store_ok_updateJobStatus)
next
  case (StartJob k)
  with assms show ?thesis by (simp add: startJob_def store_ok_updateJobStatus)
next
  case (CompleteJob k)
  with assms show ?thesis by (simp add: completeJob_def store_ok_updateJobStatus)
next
  case (UpdateJobNotes k notesIn)
  have "store_ok (update_jobs_where_id k (\<lambda>r. r\<lparr>notes := n', updatedAt := u\<rparr>) s)" for n' u
    using store_ok_row[OF assms]
    by (intro store_ok_update[OF assms]) (auto simp: numbered_after_invoicing_def)
  with UpdateJobNotes show ?thesis by (simp add: updateJobNotes_def)
next
  case (CreateInvoice k)
  have "store_ok (update_jobs_where_id k
          (\<lambda>r. (spread_dates us (r\<lparr>status := js ''Invoiced'', invoiceNumber := Some n'\<rparr>))
                  \<lparr>updatedAt := u\<rparr>) s)" for n' u us
    by (intro store_ok_update[OF assms]) (auto simp: numbered_after_invoicing_def)
  with assms CreateInvoice show ?thesis
    by (auto simp: createInvoice_def Let_def split: option.splits)
next
  case (RecordPayment k d)
  have "store_ok (update_jobs_where_id k
          (\<lambda>r. r\<lparr>status := js ''Paid'', paymentDate := Some d', updatedAt := u\<rparr>) s)" for d' u
    by (intro store_ok_update[OF assms]) (auto simp: numbered_after_invoicing_def)
  with assms RecordPayment show ?thesis
    by (auto simp: recordPayment_def Let_def split: option.splits)
next
  case (UpdateInvoiceNotes k notesIn)
  have "store_ok (update_jobs_where_id k (\<lambda>r. r\<lparr>notes := n', updatedAt := u\<rparr>) s)" for n' u
    using store_ok_row[OF assms]
    by (intro store_ok_update[OF assms]) (auto simp: numbered_after_invoicing_def)
  with assms UpdateInvoiceNotes show ?thesis
    by (auto simp: updateInvoiceNotes_def split: option.splits)
qed

lemma run_all_store_ok: "store_ok s \<Longrightarrow> store_ok (run_all cmds s)"
  by (induction cmds arbitrary: s) (auto simp: run_store_ok)

section \<open>Creating an invoice\<close>

lemma reachable_store_ok: "store_ok (run_all cmds empty_store)"
  by (rule run_all_store_ok) (rule store_ok_empty)

text \<open>
  Claim C7. \<open>createInvoice\<close> succeeds exactly when the job exists and its status is
  Completed. On success the job is Invoiced, carries the invoice number minted by
  \<open>generateInvoiceNumber\<close> and has \<open>invoiceDate\<close> set to the current date; whatever actions
  are called afterwards, the job keeps that invoice number; and in a store where only
  invoiced jobs carry an invoice number (every store the actions build from the empty one)
  the job had none before. For a missing job or any other status the result is a failure
  and the store is as before, so no invoice number is assigned.
\<close>

theorem createInvoice_spec:
  "(success (fst (createInvoice now i s)) \<longleftrightarrow>
      (\<exists>j. select_job_by_id s i = Some j \<and> status j = js ''Completed''))
   \<and> (success (fst (createInvoice now i s)) \<longrightarrow>
        (\<exists>j'. select_job_by_id (snd (createInvoice now i s)) i = Some j'
           \<and> status j' = js ''Invoiced''
           \<and> invoiceNumber j' = Some (generateInvoiceNumber now s)
           \<and> invoiceDate j' = Some (toISODate (getTime now)))
        \<and> (\<forall>cmds. holds_invoice i (generateInvoiceNumber now s)
                      (run_all cmds (snd (createInvoice now i s))))
        \<and> (store_ok s \<longrightarrow> (\<exists>j. select_job_by_id s i = Some j \<and> invoiceNumber j = None)))
   \<and> (\<not> success (fst (createInvoice now i s)) \<longrightarrow> snd (createInvoice now i s) = s)
   \<and> (store_ok s \<longrightarrow> store_ok (snd (createInvoice now i s)))"
proof -
  have inv: "store_ok s \<longrightarrow> store_ok (snd (createInvoice now i s))"
    using run_store_ok[of s now "CreateInvoice i"] by simp
  show ?thesis
  proof (cases "select_job_by_id s i")
    case None
    then show ?thesis using inv by (simp add: createInvoice_def)
  next
    case (Some j)
    show ?thesis
    proof (cases "status j = js ''Completed''")
      case False
      with Some show ?thesis using inv by (simp add: createInvoice_def)
    next
      case True
      let ?f = "\<lambda>r. (spread_dates [(InvoiceDate, toISODate (getTime now))]
                        (r\<lparr>status := js ''Invoiced'',
                           invoiceNumber := Some (generateInvoiceNumber now s)\<rparr>))
                     \<lparr>updatedAt := getTime now\<rparr>"
      have res: "createInvoice now i s
                   = (Success (getInvoiceById now (update_jobs_where_id i ?f s) i),
                      update_jobs_where_id i ?f s)"
        using Some True by (simp add: createInvoice_def dates_Invoiced Let_def)
      have sel: "select_job_by_id (update_jobs_where_id i ?f s) i = Some (?f j)"
        using Some by (simp add: select_update)
      have flds: "status (?f j) = js ''Invoiced''"
        "invoiceNumber (?f j) = Some (generateInvoiceNumber now s)"
        "invoiceDate (?f j) = Some (toISODate (getTime now))"
        by (simp_all add: spread_dates_def)
      have "holds_invoice i (generateInvoiceNumber now s) (update_jobs_where_id i ?f s)"
        using sel flds by (simp add: holds_invoice_def)
      then have later: "holds_invoice i (generateInvoiceNumber now s)
                          (run_all cmds (update_jobs_where_id i ?f s))" for cmds
        by (rule run_all_holds_invoice)
      have before: "invoiceNumber j = None" if "store_ok s"
        using store_ok_row[OF that Some] True by (simp add: numbered_after_invoicing_def)
      from Some True sel flds later before inv show ?thesis
        by (simp add: res)
    qed
  qed
qed

lemma generateInvoiceNumber_first:
  "generateInvoiceNumber example_clock (example_store [example_job 1 (js ''Completed'')])
     = js ''261102001''"
proof -
  have t1: "toString (int 0 + 1) = js ''1''"
    by (simp add: toString_def toString_nat.simps digit_def js_def)
  have cnt0: "length (filter (\<lambda>j. case invoiceNumber j of None \<Rightarrow> False
                                 | Some n \<Rightarrow> like_prefix (datePrefix example_clock) n)
                       (jobs (example_store [example_job 1 (js ''Completed'')]))) = 0"
    by (simp add: example_store_def example_job_def)
  have "generateInvoiceNumber example_clock (example_store [example_job 1 (js ''Completed'')])
     = datePrefix example_clock @ padStart 3 (digit 0) (toString (int 0 + 1))"
    by (simp only: generateInvoiceNumber_def Let_def cnt0)
  also have "\<dots> = js ''261102'' @ padStart 3 (digit 0) (js ''1'')"
    by (simp only: datePrefix_example t1)
  also have "\<dots> = js ''261102001''"
    by (simp add: js_def padStart_def digit_def numeral_2_eq_2)
  finally show ?thesis .
qed

theorem createInvoice_spec_witness:
  "success (fst (createInvoice example_clock 1 (example_store [example_job 1 (js ''Completed'')])))
   \<and> (\<exists>j'. select_job_by_id
              (snd (createInvoice example_clock 1 (example_store [example_job 1 (js ''Completed'')]))) 1
              = Some j'
          \<and> status j' = js ''Invoiced'' \<and> invoiceNumber j' = Some (js ''261102001'')
          \<and> invoiceDate j' = Some 20759)
   \<and> holds_invoice 1 (js ''261102001'')
        (run_all [(example_clock, RecordPayment 1 None), (example_clock, CreateInvoice 1)]
           (snd (createInvoice example_clock 1 (example_store [example_job 1 (js ''Completed'')]))))
   \<and> store_ok (example_store [example_job 1 (js ''Completed'')])
   \<and> invoiceNumber (example_job 1 (js ''Completed'')) = None
   \<and> \<not> success (fst (createInvoice example_clock 1 (example_store [example_job 1 (js ''Approved'')])))
   \<and> snd (createInvoice example_clock 1 (example_store [example_job 1 (js ''Approved'')]))
       = example_store [example_job 1 (js ''Approved'')]"
proof -
  let ?s = "example_store [example_job 1 (js ''Completed'')]"
  let ?a = "example_store [example_job 1 (js ''Approved'')]"
  note spec = createInvoice_spec[of example_clock 1 ?s]
  have h: "select_job_by_id ?s 1 = Some (example_job 1 (js ''Completed''))"
    by (rule select_example_store)
  have ha: "select_job_by_id ?a 1 = Some (example_job 1 (js ''Approved''))"
    by (rule select_example_store)
  have today: "toISODate (getTime example_clock) = 20759"
    by (simp add: toISODate_def example_clock_def)
  have ok0: "store_ok ?s"
    by (simp add: store_ok_def example_store_def example_job_def numbered_after_invoicing_def)
  have none: "invoiceNumber (example_job 1 (js ''Completed'')) = None"
    by (simp add: example_job_def)
  from spec h have ok: "success (fst (createInvoice example_clock 1 ?s))" by simp
  with spec have
    a: "\<exists>j'. select_job_by_id (snd (createInvoice example_clock 1 ?s)) 1 = Some j'
           \<and> status j' = js ''Invoiced''
           \<and> invoiceNumber j' = Some (generateInvoiceNumber example_clock ?s)
           \<and> invoiceDate j' = Some (toISODate (getTime example_clock))"
    and b: "\<forall>cmds. holds_invoice 1 (generateInvoiceNumber example_clock ?s)
                      (run_all cmds (snd (createInvoice example_clock 1 ?s)))"
    by blast+
  from b have b': "holds_invoice 1 (generateInvoiceNumber example_clock ?s)
        (run_all [(example_clock, RecordPayment 1 None), (example_clock, CreateInvoice 1)]
           (snd (createInvoice example_clock 1 ?s)))"
    by blast
  from createInvoice_spec[of example_clock 1 ?a] ha
  have c: "\<not> success (fst (createInvoice example_clock 1 ?a))"
    and d: "snd (createInvoice example_clock 1 ?a) = ?a"
    by simp_all
  from ok a b' ok0 none c d show ?thesis
    by (simp only: generateInvoiceNumber_first today) simp
qed

end
